theory Spec2Isabelle
  imports Main "HOL-Library.Word" "HOL-Library.Multiset"
begin

section \<open>JavaScript strings\<close>

text \<open>
  A JavaScript string is a sequence of UTF-16 code units; \<^verbatim>\<open>slice\<close> and
  \<^verbatim>\<open>length\<close> count code units. \<open>str\<close> writes an ASCII literal.
  \<^verbatim>\<open>String.prototype.trim\<close> removes the WhiteSpace and LineTerminator code
  points of ECMAScript from both ends.
\<close>

type_synonym js_string = "16 word list"

definition str :: "string \<Rightarrow> js_string" where
  "str s = map of_char s"

definition isWhiteSpace :: "16 word \<Rightarrow> bool" where
  "isWhiteSpace c \<longleftrightarrow>
     c \<in> {0x09, 0x0A, 0x0B, 0x0C, 0x0D, 0x20, 0xA0, 0x1680, 0x2028, 0x2029,
          0x202F, 0x205F, 0x3000, 0xFEFF}
     \<or> (0x2000 \<le> c \<and> c \<le> 0x200A)"

definition trim :: "js_string \<Rightarrow> js_string" where
  "trim s = rev (dropWhile isWhiteSpace (rev (dropWhile isWhiteSpace s)))"

section \<open>The data model of the backend (schema and convex/tasks)\<close>

text \<open>
  \<^verbatim>\<open>TaskStatus\<close> is the canonical enum; \<^verbatim>\<open>LegacyTaskStatus\<close> adds the three
  legacy literals "active", "completed" and "in-progress". The handlers normalise the
  status they read from a stored task, so a stored status is a legacy status.
\<close>

datatype task_status = Backlog | In_progress | Done

datatype legacy_task_status = Canonical task_status | Active | Completed | In_dash_progress

type_synonym doc_id = js_string

text \<open>
  Documents carry the identifier the database gave them (\<^verbatim>\<open>_id\<close>, an opaque string).
  Field names are prefixed per table. \<open>createdAt\<close> and \<open>updatedAt\<close> are readings of the
  clock (epoch milliseconds), modelled as \<open>int\<close>. \<open>order\<close> is a JavaScript number, an IEEE
  754 double; the model holds the orders that are integers, as \<open>int\<close>, and rounds where
  the code computes with them (\<open>number_subtract\<close> below).
\<close>

record task =
  task_id :: doc_id
  title :: js_string
  status :: legacy_task_status
  description :: js_string
  order :: int
  createdAt :: int
  updatedAt :: int

record message =
  msg_id :: doc_id
  msg_taskId :: js_string
  msg_text :: js_string
  msg_author :: js_string
  msg_createdAt :: int

datatype event_type =
  Task_created | Task_status_changed | Task_description_updated | Task_reordered | Message_sent

record payload =
  p_from :: "task_status option"
  p_to :: "task_status option"
  p_textPreview :: "js_string option"
  p_fromIndex :: "int option"
  p_toIndex :: "int option"

definition empty_payload :: payload where
  "empty_payload =
     \<lparr>p_from = None, p_to = None, p_textPreview = None, p_fromIndex = None, p_toIndex = None\<rparr>"

record task_event =
  ev_id :: doc_id
  ev_taskId :: js_string
  ev_type :: event_type
  ev_actor :: js_string
  ev_payload :: payload
  ev_createdAt :: int

record app_state_doc =
  as_id :: doc_id
  as_key :: js_string
  as_value :: bool
  as_createdAt :: int
  as_updatedAt :: int

section \<open>The database the handlers write to\<close>

text \<open>
  The reactive database is an external service. Its four tables are lists of documents in
  insertion order. \<open>journal\<close> records every write a handler issues
  (\<^verbatim>\<open>ctx.db.insert\<close>, \<^verbatim>\<open>ctx.db.patch\<close>, \<^verbatim>\<open>ctx.db.delete\<close>), so that "performs
  no patch" and "deletes nothing" are statements about the state. A patch or a delete of
  an identifier with no document throws, which aborts the mutation: the handlers return
  \<open>Inl\<close> of the error and no state.
\<close>

datatype table = Tasks | Messages | Task_events | App_state

datatype db_write = Inserted table doc_id | Patched table doc_id | Deleted table doc_id

datatype error = Nonexistent_document table doc_id

record db =
  tasks :: "task list"
  messages :: "message list"
  task_events :: "task_event list"
  app_state :: "app_state_doc list"
  journal :: "db_write list"

definition all_ids :: "db \<Rightarrow> doc_id list" where
  "all_ids d = map task_id (tasks d) @ map msg_id (messages d)
     @ map ev_id (task_events d) @ map as_id (app_state d)"

text \<open>The identifier of a new document: a non-empty string longer than every one in use.\<close>

definition fresh_id :: "db \<Rightarrow> doc_id" where
  "fresh_id d = replicate (Suc (foldr max (map length (all_ids d)) 0)) 0x6B"

definition db_get :: "db \<Rightarrow> doc_id \<Rightarrow> task option" where
  "db_get d i = find (\<lambda>t. task_id t = i) (tasks d)"

definition db_patch_task :: "doc_id \<Rightarrow> (task \<Rightarrow> task) \<Rightarrow> db \<Rightarrow> error + db" where
  "db_patch_task i f d =
     (if i \<in> task_id ` set (tasks d)
      then Inr (d\<lparr>tasks := map (\<lambda>t. if task_id t = i then f t else t) (tasks d),
                  journal := journal d @ [Patched Tasks i]\<rparr>)
      else Inl (Nonexistent_document Tasks i))"

definition db_insert_task ::
  "js_string \<Rightarrow> legacy_task_status \<Rightarrow> js_string \<Rightarrow> int \<Rightarrow> int \<Rightarrow> int \<Rightarrow> db \<Rightarrow> doc_id \<times> db" where
  "db_insert_task ti st de ord cr up d =
     (let i = fresh_id d in
      (i, d\<lparr>tasks := tasks d @ [\<lparr>task_id = i, title = ti, status = st, description = de,
                                  order = ord, createdAt = cr, updatedAt = up\<rparr>],
             journal := journal d @ [Inserted Tasks i]\<rparr>))"

definition db_insert_event ::
  "js_string \<Rightarrow> event_type \<Rightarrow> js_string \<Rightarrow> payload \<Rightarrow> int \<Rightarrow> db \<Rightarrow> db" where
  "db_insert_event tid ty ac pl cr d =
     (let i = fresh_id d in
      d\<lparr>task_events := task_events d @ [\<lparr>ev_id = i, ev_taskId = tid, ev_type = ty,
                                          ev_actor = ac, ev_payload = pl, ev_createdAt = cr\<rparr>],
        journal := journal d @ [Inserted Task_events i]\<rparr>)"

definition db_insert_message ::
  "js_string \<Rightarrow> js_string \<Rightarrow> js_string \<Rightarrow> int \<Rightarrow> db \<Rightarrow> doc_id \<times> db" where
  "db_insert_message tid tx au cr d =
     (let i = fresh_id d in
      (i, d\<lparr>messages := messages d @ [\<lparr>msg_id = i, msg_taskId = tid, msg_text = tx,
                                        msg_author = au, msg_createdAt = cr\<rparr>],
             journal := journal d @ [Inserted Messages i]\<rparr>))"

definition db_delete_task :: "doc_id \<Rightarrow> db \<Rightarrow> error + db" where
  "db_delete_task i d =
     (if i \<in> task_id ` set (tasks d)
      then Inr (d\<lparr>tasks := filter (\<lambda>t. task_id t \<noteq> i) (tasks d),
                  journal := journal d @ [Deleted Tasks i]\<rparr>)
      else Inl (Nonexistent_document Tasks i))"

definition db_delete_message :: "doc_id \<Rightarrow> db \<Rightarrow> error + db" where
  "db_delete_message i d =
     (if i \<in> msg_id ` set (messages d)
      then Inr (d\<lparr>messages := filter (\<lambda>m. msg_id m \<noteq> i) (messages d),
                  journal := journal d @ [Deleted Messages i]\<rparr>)
      else Inl (Nonexistent_document Messages i))"

definition db_delete_event :: "doc_id \<Rightarrow> db \<Rightarrow> error + db" where
  "db_delete_event i d =
     (if i \<in> ev_id ` set (task_events d)
      then Inr (d\<lparr>task_events := filter (\<lambda>e. ev_id e \<noteq> i) (task_events d),
                  journal := journal d @ [Deleted Task_events i]\<rparr>)
      else Inl (Nonexistent_document Task_events i))"

text \<open>The single-row table \<^verbatim>\<open>app_state\<close>: patching a document and inserting one.\<close>

definition db_patch_app_state ::
  "doc_id \<Rightarrow> (app_state_doc \<Rightarrow> app_state_doc) \<Rightarrow> db \<Rightarrow> error + db" where
  "db_patch_app_state i f d =
     (if i \<in> as_id ` set (app_state d)
      then Inr (d\<lparr>app_state := map (\<lambda>a. if as_id a = i then f a else a) (app_state d),
                  journal := journal d @ [Patched App_state i]\<rparr>)
      else Inl (Nonexistent_document App_state i))"

definition db_insert_app_state :: "js_string \<Rightarrow> bool \<Rightarrow> int \<Rightarrow> int \<Rightarrow> db \<Rightarrow> db" where
  "db_insert_app_state k v cr up d =
     (let i = fresh_id d in
      d\<lparr>app_state := app_state d @ [\<lparr>as_id = i, as_key = k, as_value = v, as_createdAt = cr,
                                        as_updatedAt = up\<rparr>],
        journal := journal d @ [Inserted App_state i]\<rparr>)"

section \<open>convex/tasks: helpers\<close>

definition normalizeActor :: "js_string option \<Rightarrow> js_string" where
  "normalizeActor actor =
     (let trimmed = (case actor of None \<Rightarrow> [] | Some a \<Rightarrow> trim a)
      in if trimmed = str ''demo-user'' then str ''demo-user'' else str ''anonymous'')"

definition buildPreview :: "js_string \<Rightarrow> js_string" where
  "buildPreview text = take 80 text"

fun nextStatus :: "task_status \<Rightarrow> task_status" where
  "nextStatus Backlog = In_progress"
| "nextStatus In_progress = Done"
| "nextStatus Done = Backlog"

fun normalizeLegacyStatus :: "legacy_task_status option \<Rightarrow> task_status" where
  "normalizeLegacyStatus (Some Active) = Backlog"
| "normalizeLegacyStatus (Some Completed) = Done"
| "normalizeLegacyStatus (Some (Canonical Done)) = Done"
| "normalizeLegacyStatus (Some In_dash_progress) = In_progress"
| "normalizeLegacyStatus (Some (Canonical Backlog)) = Backlog"
| "normalizeLegacyStatus (Some (Canonical In_progress)) = In_progress"
| "normalizeLegacyStatus None = Backlog"

text \<open>
  The subtraction of JavaScript numbers, on integers: the exact difference rounded to the
  nearest double, a tie going to the double with the even significand. A double has a
  significand of 53 bits, so every integer of magnitude up to \<open>2 ^ 53\<close> is a double, and
  a larger magnitude \<open>n\<close> of \<open>b\<close> bits lies between two neighbouring multiples of
  \<open>2 ^ (b - 53)\<close>, which are doubles. The difference of a double and 1 is finite.
\<close>

fun bit_length :: "nat \<Rightarrow> nat" where
  "bit_length n = (if n = 0 then 0 else Suc (bit_length (n div 2)))"

declare bit_length.simps [simp del]

definition round_magnitude :: "nat \<Rightarrow> nat" where
  "round_magnitude n =
     (if n \<le> 2 ^ 53 then n
      else
        let e = bit_length n - 53;
            q = n div 2 ^ e;
            r = n mod 2 ^ e;
            half = 2 ^ (e - 1)
        in (if r < half \<or> (r = half \<and> even q) then q else q + 1) * 2 ^ e)"

definition roundTiesToEven :: "int \<Rightarrow> int" where
  "roundTiesToEven x = sgn x * int (round_magnitude (nat \<bar>x\<bar>))"

definition number_subtract :: "int \<Rightarrow> int \<Rightarrow> int" where
  "number_subtract x y = roundTiesToEven (x - y)"

text \<open>
  \<^verbatim>\<open>getNextOrder\<close> reads the first document of the index \<^verbatim>\<open>by_status_order\<close> with the
  given status, ascending: a task of that stored status with the least order. Its result
  is \<^verbatim>\<open>first.order - 1\<close>, a subtraction of numbers.
\<close>

definition column_of :: "db \<Rightarrow> task_status \<Rightarrow> task list" where
  "column_of d s = filter (\<lambda>t. status t = Canonical s) (tasks d)"

definition getNextOrder :: "db \<Rightarrow> task_status \<Rightarrow> int" where
  "getNextOrder d s =
     (case column_of d s of
        [] \<Rightarrow> 0
      | t # ts \<Rightarrow> number_subtract (fold min (map order ts) (order t)) 1)"

section \<open>convex/tasks: the mutations\<close>

text \<open>
  Each mutation takes the reading of \<^verbatim>\<open>Date.now()\<close> as \<open>now\<close> and the database, and
  returns the error that aborted it, or the new database with the value it returns.
\<close>

definition create ::
  "int \<Rightarrow> js_string \<Rightarrow> js_string option \<Rightarrow> legacy_task_status option \<Rightarrow> int option
     \<Rightarrow> js_string option \<Rightarrow> db \<Rightarrow> error + db \<times> doc_id option" where
  "create now a_title a_description a_status a_order a_actor d =
     (let title' = trim a_title in
      if title' = [] then Inr (d, None)
      else
        let st = normalizeLegacyStatus a_status;
            ord = (case a_order of Some n \<Rightarrow> n | None \<Rightarrow> getNextOrder d st);
            (taskId, d1) = db_insert_task title' (Canonical st)
                             (case a_description of Some x \<Rightarrow> x | None \<Rightarrow> []) ord now now d;
            d2 = db_insert_event taskId Task_created (normalizeActor a_actor) empty_payload now d1
        in Inr (d2, Some taskId))"

definition setStatus ::
  "int \<Rightarrow> doc_id \<Rightarrow> legacy_task_status \<Rightarrow> js_string option \<Rightarrow> db
     \<Rightarrow> error + db \<times> task_status option" where
  "setStatus now a_id a_status a_actor d =
     (case db_get d a_id of
        None \<Rightarrow> Inr (d, None)
      | Some t \<Rightarrow>
          let currentStatus = normalizeLegacyStatus (Some (status t));
              targetStatus = normalizeLegacyStatus (Some a_status);
              shouldNormalize = (status t \<noteq> Canonical currentStatus)
          in if currentStatus = targetStatus \<and> \<not> shouldNormalize then Inr (d, Some currentStatus)
             else
               let ord = getNextOrder d targetStatus in
               (case db_patch_task a_id
                       (\<lambda>t. t\<lparr>status := Canonical targetStatus, order := ord, updatedAt := now\<rparr>) d of
                  Inl e \<Rightarrow> Inl e
                | Inr d1 \<Rightarrow>
                    Inr (db_insert_event a_id Task_status_changed (normalizeActor a_actor)
                           (empty_payload\<lparr>p_from := Some currentStatus, p_to := Some targetStatus\<rparr>)
                           now d1,
                         Some targetStatus)))"

definition cycleStatus ::
  "int \<Rightarrow> doc_id \<Rightarrow> js_string option \<Rightarrow> db \<Rightarrow> error + db \<times> task_status option" where
  "cycleStatus now a_id a_actor d =
     (case db_get d a_id of
        None \<Rightarrow> Inr (d, None)
      | Some t \<Rightarrow>
          let currentStatus = normalizeLegacyStatus (Some (status t));
              status' = nextStatus currentStatus;
              ord = getNextOrder d status'
          in (case db_patch_task a_id
                     (\<lambda>t. t\<lparr>status := Canonical status', order := ord, updatedAt := now\<rparr>) d of
                Inl e \<Rightarrow> Inl e
              | Inr d1 \<Rightarrow>
                  Inr (db_insert_event a_id Task_status_changed (normalizeActor a_actor)
                         (empty_payload\<lparr>p_from := Some currentStatus, p_to := Some status'\<rparr>)
                         now d1,
                       Some status')))"

definition remove :: "doc_id \<Rightarrow> db \<Rightarrow> error + db" where
  "remove a_id d = db_delete_task a_id d"

definition updateDescription ::
  "int \<Rightarrow> doc_id \<Rightarrow> js_string \<Rightarrow> js_string option \<Rightarrow> db \<Rightarrow> error + db" where
  "updateDescription now a_id a_description a_actor d =
     (case db_get d a_id of
        None \<Rightarrow> Inr d
      | Some t \<Rightarrow>
          if description t = a_description then Inr d
          else
            (case db_patch_task a_id
                    (\<lambda>t. t\<lparr>description := a_description, updatedAt := now\<rparr>) d of
               Inl e \<Rightarrow> Inl e
             | Inr d1 \<Rightarrow>
                 Inr (db_insert_event a_id Task_description_updated (normalizeActor a_actor)
                        (empty_payload\<lparr>p_textPreview := Some (buildPreview (trim a_description))\<rparr>)
                        now d1)))"

text \<open>
  \<^verbatim>\<open>reorder\<close>: the arguments, the two nested loops of the column rewrite (the inner one
  from a given index), and the two optional events. A string is truthy when it is not
  empty; a given status literal is always truthy.
\<close>

record column =
  col_status :: legacy_task_status
  orderedIds :: "doc_id list"

record reorder_args =
  columns :: "column list"
  movedTaskId :: "doc_id option"
  fromStatus :: "legacy_task_status option"
  toStatus :: "legacy_task_status option"
  fromIndex :: "int option"
  toIndex :: "int option"
  actor :: "js_string option"

fun reorder_ids :: "int \<Rightarrow> task_status \<Rightarrow> nat \<Rightarrow> doc_id list \<Rightarrow> db \<Rightarrow> error + db" where
  "reorder_ids now normalizedStatus index [] d = Inr d"
| "reorder_ids now normalizedStatus index (i # ids) d =
     (case db_patch_task i
             (\<lambda>t. t\<lparr>order := int index, status := Canonical normalizedStatus, updatedAt := now\<rparr>) d of
        Inl e \<Rightarrow> Inl e
      | Inr d1 \<Rightarrow> reorder_ids now normalizedStatus (Suc index) ids d1)"

fun reorder_columns :: "int \<Rightarrow> column list \<Rightarrow> db \<Rightarrow> error + db" where
  "reorder_columns now [] d = Inr d"
| "reorder_columns now (c # cs) d =
     (case reorder_ids now (normalizeLegacyStatus (Some (col_status c))) 0 (orderedIds c) d of
        Inl e \<Rightarrow> Inl e
      | Inr d1 \<Rightarrow> reorder_columns now cs d1)"

definition truthy :: "js_string option \<Rightarrow> bool" where
  "truthy s = (case s of None \<Rightarrow> False | Some x \<Rightarrow> x \<noteq> [])"

definition reorder_events :: "int \<Rightarrow> reorder_args \<Rightarrow> db \<Rightarrow> db" where
  "reorder_events now args d =
     (let d1 =
        (if truthy (movedTaskId args) \<and> fromIndex args \<noteq> None \<and> toIndex args \<noteq> None
            \<and> fromIndex args \<noteq> toIndex args
         then db_insert_event (the (movedTaskId args)) Task_reordered (normalizeActor (actor args))
                (empty_payload\<lparr>p_fromIndex := fromIndex args, p_toIndex := toIndex args\<rparr>) now d
         else d)
      in
        if truthy (movedTaskId args) \<and> fromStatus args \<noteq> None \<and> toStatus args \<noteq> None
        then
          let normalizedFrom = normalizeLegacyStatus (fromStatus args);
              normalizedTo = normalizeLegacyStatus (toStatus args)
          in if normalizedFrom \<noteq> normalizedTo
             then db_insert_event (the (movedTaskId args)) Task_status_changed
                    (normalizeActor (actor args))
                    (empty_payload\<lparr>p_from := Some normalizedFrom, p_to := Some normalizedTo\<rparr>) now d1
             else d1
        else d1)"

definition reorder :: "int \<Rightarrow> reorder_args \<Rightarrow> db \<Rightarrow> error + db" where
  "reorder now args d =
     (case reorder_columns now (columns args) d of
        Inl e \<Rightarrow> Inl e
      | Inr d1 \<Rightarrow> Inr (reorder_events now args d1))"

section \<open>convex/tasks: seedDemoData\<close>

text \<open>
  convex/tasks: \<^verbatim>\<open>seedDemoData\<close>. A template of the table \<^verbatim>\<open>demoSeedTemplates\<close>; an
  absent optional field is \<open>None\<close>. The Russian texts are written as their UTF-16 code
  units.
\<close>

record seed_message =
  sm_text :: js_string
  sm_offset :: int
  sm_author :: js_string

record seed_template =
  tpl_title :: js_string
  tpl_status :: task_status
  tpl_order :: int
  tpl_description :: "js_string option"
  tpl_createdOffset :: int
  tpl_statusFrom :: "task_status option"
  tpl_statusOffset :: "int option"
  tpl_descriptionOffset :: "int option"
  tpl_messages :: "seed_message list option"

datatype demo_language = Ru | En | Es

definition demoSeedTemplates_en :: "seed_template list" where
  "demoSeedTemplates_en =
     [\<lparr>tpl_title = str ''Plan onboarding checklist'',
        tpl_status = Backlog,
        tpl_order = 0,
        tpl_description = (Some (str ''Outline the first-run steps so users reach a task in under 60 seconds.'')),
        tpl_createdOffset = 0,
        tpl_statusFrom = None,
        tpl_statusOffset = None,
        tpl_descriptionOffset = (Some 6),
        tpl_messages = None\<rparr>,
      \<lparr>tpl_title = str ''Define analytics events'',
        tpl_status = Backlog,
        tpl_order = 1,
        tpl_description = None,
        tpl_createdOffset = 4,
        tpl_statusFrom = None,
        tpl_statusOffset = None,
        tpl_descriptionOffset = None,
        tpl_messages = None\<rparr>,
      \<lparr>tpl_title = str ''Refine drag-and-drop feel'',
        tpl_status = In_progress,
        tpl_order = 0,
        tpl_description = (Some (str ''Tighten the pickup, keep the card shadow, and avoid layout jitter.'')),
        tpl_createdOffset = 12,
        tpl_statusFrom = (Some Backlog),
        tpl_statusOffset = (Some 18),
        tpl_descriptionOffset = (Some 22),
        tpl_messages = (Some [\<lparr>sm_text = str ''The card should keep its original shadow while dragging.'',
            sm_offset = 28, sm_author = str ''Alex''\<rparr>,
          \<lparr>sm_text = str ''I can ship the motion pass today if we lock the offsets.'',
            sm_offset = 34, sm_author = str ''Maria''\<rparr>])\<rparr>,
      \<lparr>tpl_title = str ''Draft release notes'',
        tpl_status = In_progress,
        tpl_order = 1,
        tpl_description = None,
        tpl_createdOffset = 20,
        tpl_statusFrom = (Some Backlog),
        tpl_statusOffset = (Some 26),
        tpl_descriptionOffset = None,
        tpl_messages = None\<rparr>,
      \<lparr>tpl_title = str ''QA mobile layout'',
        tpl_status = In_progress,
        tpl_order = 2,
        tpl_description = (Some (str ''Verify spacing at 320px and ensure the board stays scrollable.'')),
        tpl_createdOffset = 28,
        tpl_statusFrom = (Some Backlog),
        tpl_statusOffset = (Some 33),
        tpl_descriptionOffset = (Some 38),
        tpl_messages = None\<rparr>,
      \<lparr>tpl_title = str ''Set up demo walkthrough'',
        tpl_status = Done,
        tpl_order = 0,
        tpl_description = None,
        tpl_createdOffset = 36,
        tpl_statusFrom = (Some Backlog),
        tpl_statusOffset = (Some 44),
        tpl_descriptionOffset = None,
        tpl_messages = (Some [\<lparr>sm_text = str ''Walkthrough is ready with 5 steps and auto-focus highlights.'',
            sm_offset = 52, sm_author = str ''Alex''\<rparr>,
          \<lparr>sm_text = str ''Added a skip button and reset entry for QA.'',
            sm_offset = 58, sm_author = str ''Maria''\<rparr>])\<rparr>,
      \<lparr>tpl_title = str ''Polish empty state copy'',
        tpl_status = Done,
        tpl_order = 1,
        tpl_description = (Some (str ''Make the empty state feel optimistic and action-oriented.'')),
        tpl_createdOffset = 42,
        tpl_statusFrom = (Some Backlog),
        tpl_statusOffset = (Some 50),
        tpl_descriptionOffset = (Some 56),
        tpl_messages = None\<rparr>]"

definition demoSeedTemplates_ru :: "seed_template list" where
  "demoSeedTemplates_ru =
     [\<lparr>tpl_title = [0x0421, 0x043E, 0x0441, 0x0442, 0x0430, 0x0432, 0x0438, 0x0442, 0x044C, 0x0020,
          0x0447, 0x0435, 0x043A, 0x002D, 0x043B, 0x0438, 0x0441, 0x0442, 0x0020, 0x043E,
          0x043D, 0x0431, 0x043E, 0x0440, 0x0434, 0x0438, 0x043D, 0x0433, 0x0430],
        tpl_status = Backlog,
        tpl_order = 0,
        tpl_description = (Some
         [0x041E, 0x043F, 0x0440, 0x0435, 0x0434, 0x0435, 0x043B, 0x0438, 0x0442, 0x044C,
          0x0020, 0x043F, 0x0435, 0x0440, 0x0432, 0x044B, 0x0435, 0x0020, 0x0448, 0x0430,
          0x0433, 0x0438, 0x0020, 0x0442, 0x0430, 0x043A, 0x002C, 0x0020, 0x0447, 0x0442,
          0x043E, 0x0431, 0x044B, 0x0020, 0x043F, 0x043E, 0x043B, 0x044C, 0x0437, 0x043E,
          0x0432, 0x0430, 0x0442, 0x0435, 0x043B, 0x044C, 0x0020, 0x0441, 0x043E, 0x0437,
          0x0434, 0x0430, 0x0432, 0x0430, 0x043B, 0x0020, 0x0437, 0x0430, 0x0434, 0x0430,
          0x0447, 0x0443, 0x0020, 0x0437, 0x0430, 0x0020, 0x0036, 0x0030, 0x0020, 0x0441,
          0x0435, 0x043A, 0x0443, 0x043D, 0x0434, 0x002E]),
        tpl_createdOffset = 0,
        tpl_statusFrom = None,
        tpl_statusOffset = None,
        tpl_descriptionOffset = (Some 6),
        tpl_messages = None\<rparr>,
      \<lparr>tpl_title = [0x041E, 0x043F, 0x0440, 0x0435, 0x0434, 0x0435, 0x043B, 0x0438, 0x0442, 0x044C,
          0x0020, 0x0441, 0x043E, 0x0431, 0x044B, 0x0442, 0x0438, 0x044F, 0x0020, 0x0430,
          0x043D, 0x0430, 0x043B, 0x0438, 0x0442, 0x0438, 0x043A, 0x0438],
        tpl_status = Backlog,
        tpl_order = 1,
        tpl_description = None,
        tpl_createdOffset = 4,
        tpl_statusFrom = None,
        tpl_statusOffset = None,
        tpl_descriptionOffset = None,
        tpl_messages = None\<rparr>,
      \<lparr>tpl_title = [0x0423, 0x043B, 0x0443, 0x0447, 0x0448, 0x0438, 0x0442, 0x044C, 0x0020, 0x043E,
          0x0449, 0x0443, 0x0449, 0x0435, 0x043D, 0x0438, 0x0435, 0x0020, 0x0064, 0x0072,
          0x0061, 0x0067, 0x002D, 0x0061, 0x006E, 0x0064, 0x002D, 0x0064, 0x0072, 0x006F,
          0x0070],
        tpl_status = In_progress,
        tpl_order = 0,
        tpl_description = (Some
         [0x041F, 0x043E, 0x0434, 0x0442, 0x044F, 0x043D, 0x0443, 0x0442, 0x044C, 0x0020,
          0x0437, 0x0430, 0x0445, 0x0432, 0x0430, 0x0442, 0x002C, 0x0020, 0x0441, 0x043E,
          0x0445, 0x0440, 0x0430, 0x043D, 0x0438, 0x0442, 0x044C, 0x0020, 0x0442, 0x0435,
          0x043D, 0x044C, 0x0020, 0x043A, 0x0430, 0x0440, 0x0442, 0x043E, 0x0447, 0x043A,
          0x0438, 0x0020, 0x0438, 0x0020, 0x0443, 0x0431, 0x0440, 0x0430, 0x0442, 0x044C,
          0x0020, 0x0434, 0x0440, 0x043E, 0x0436, 0x0430, 0x043D, 0x0438, 0x0435, 0x002E]),
        tpl_createdOffset = 12,
        tpl_statusFrom = (Some Backlog),
        tpl_statusOffset = (Some 18),
        tpl_descriptionOffset = (Some 22),
        tpl_messages = (Some [\<lparr>sm_text = [0x0412, 0x043E, 0x0020, 0x0432, 0x0440, 0x0435, 0x043C, 0x044F, 0x0020, 0x043F,
          0x0435, 0x0440, 0x0435, 0x0442, 0x0430, 0x0441, 0x043A, 0x0438, 0x0432, 0x0430,
          0x043D, 0x0438, 0x044F, 0x0020, 0x0442, 0x0435, 0x043D, 0x044C, 0x0020, 0x043A,
          0x0430, 0x0440, 0x0442, 0x043E, 0x0447, 0x043A, 0x0438, 0x0020, 0x0434, 0x043E,
          0x043B, 0x0436, 0x043D, 0x0430, 0x0020, 0x0441, 0x043E, 0x0445, 0x0440, 0x0430,
          0x043D, 0x044F, 0x0442, 0x044C, 0x0441, 0x044F, 0x002E],
            sm_offset = 28, sm_author = str ''Alex''\<rparr>,
          \<lparr>sm_text = [0x041C, 0x043E, 0x0433, 0x0443, 0x0020, 0x0441, 0x0435, 0x0433, 0x043E, 0x0434,
          0x043D, 0x044F, 0x0020, 0x0437, 0x0430, 0x043A, 0x043E, 0x043C, 0x043C, 0x0438,
          0x0442, 0x0438, 0x0442, 0x044C, 0x0020, 0x0430, 0x043D, 0x0438, 0x043C, 0x0430,
          0x0446, 0x0438, 0x044E, 0x002C, 0x0020, 0x0435, 0x0441, 0x043B, 0x0438, 0x0020,
          0x0437, 0x0430, 0x0444, 0x0438, 0x043A, 0x0441, 0x0438, 0x0440, 0x0443, 0x0435,
          0x043C, 0x0020, 0x0441, 0x043C, 0x0435, 0x0449, 0x0435, 0x043D, 0x0438, 0x044F,
          0x002E],
            sm_offset = 34, sm_author = str ''Maria''\<rparr>])\<rparr>,
      \<lparr>tpl_title = [0x041D, 0x0430, 0x0431, 0x0440, 0x043E, 0x0441, 0x0430, 0x0442, 0x044C, 0x0020,
          0x0437, 0x0430, 0x043C, 0x0435, 0x0442, 0x043A, 0x0438, 0x0020, 0x043A, 0x0020,
          0x0440, 0x0435, 0x043B, 0x0438, 0x0437, 0x0443],
        tpl_status = In_progress,
        tpl_order = 1,
        tpl_description = None,
        tpl_createdOffset = 20,
        tpl_statusFrom = (Some Backlog),
        tpl_statusOffset = (Some 26),
        tpl_descriptionOffset = None,
        tpl_messages = None\<rparr>,
      \<lparr>tpl_title = [0x041F, 0x0440, 0x043E, 0x0432, 0x0435, 0x0440, 0x0438, 0x0442, 0x044C, 0x0020,
          0x043C, 0x043E, 0x0431, 0x0438, 0x043B, 0x044C, 0x043D, 0x0443, 0x044E, 0x0020,
          0x0432, 0x0435, 0x0440, 0x0441, 0x0442, 0x043A, 0x0443],
        tpl_status = In_progress,
        tpl_order = 2,
        tpl_description = (Some
         [0x041F, 0x0440, 0x043E, 0x0432, 0x0435, 0x0440, 0x0438, 0x0442, 0x044C, 0x0020,
          0x043E, 0x0442, 0x0441, 0x0442, 0x0443, 0x043F, 0x044B, 0x0020, 0x043D, 0x0430,
          0x0020, 0x0033, 0x0032, 0x0030, 0x0070, 0x0078, 0x0020, 0x0438, 0x0020, 0x0443,
          0x0431, 0x0435, 0x0434, 0x0438, 0x0442, 0x044C, 0x0441, 0x044F, 0x002C, 0x0020,
          0x0447, 0x0442, 0x043E, 0x0020, 0x0434, 0x043E, 0x0441, 0x043A, 0x0430, 0x0020,
          0x0441, 0x043A, 0x0440, 0x043E, 0x043B, 0x043B, 0x0438, 0x0442, 0x0441, 0x044F,
          0x002E]),
        tpl_createdOffset = 28,
        tpl_statusFrom = (Some Backlog),
        tpl_statusOffset = (Some 33),
        tpl_descriptionOffset = (Some 38),
        tpl_messages = None\<rparr>,
      \<lparr>tpl_title = [0x041D, 0x0430, 0x0441, 0x0442, 0x0440, 0x043E, 0x0438, 0x0442, 0x044C, 0x0020,
          0x0434, 0x0435, 0x043C, 0x043E, 0x002D, 0x0442, 0x0443, 0x0440],
        tpl_status = Done,
        tpl_order = 0,
        tpl_description = None,
        tpl_createdOffset = 36,
        tpl_statusFrom = (Some Backlog),
        tpl_statusOffset = (Some 44),
        tpl_descriptionOffset = None,
        tpl_messages = (Some [\<lparr>sm_text = [0x0414, 0x0435, 0x043C, 0x043E, 0x002D, 0x0442, 0x0443, 0x0440, 0x0020, 0x0433,
          0x043E, 0x0442, 0x043E, 0x0432, 0x003A, 0x0020, 0x0035, 0x0020, 0x0448, 0x0430,
          0x0433, 0x043E, 0x0432, 0x0020, 0x0438, 0x0020, 0x0430, 0x0432, 0x0442, 0x043E,
          0x0444, 0x043E, 0x043A, 0x0443, 0x0441, 0x0020, 0x043D, 0x0430, 0x0020, 0x0430,
          0x043A, 0x0446, 0x0435, 0x043D, 0x0442, 0x0430, 0x0445, 0x002E],
            sm_offset = 52, sm_author = str ''Alex''\<rparr>,
          \<lparr>sm_text = [0x0414, 0x043E, 0x0431, 0x0430, 0x0432, 0x0438, 0x043B, 0x0430, 0x0020, 0x043A,
          0x043D, 0x043E, 0x043F, 0x043A, 0x0443, 0x0020, 0x043F, 0x0440, 0x043E, 0x043F,
          0x0443, 0x0441, 0x043A, 0x0430, 0x0020, 0x0438, 0x0020, 0x0441, 0x0431, 0x0440,
          0x043E, 0x0441, 0x0020, 0x0434, 0x043B, 0x044F, 0x0020, 0x0051, 0x0041, 0x002E],
            sm_offset = 58, sm_author = str ''Maria''\<rparr>])\<rparr>,
      \<lparr>tpl_title = [0x041E, 0x0442, 0x043F, 0x043E, 0x043B, 0x0438, 0x0440, 0x043E, 0x0432, 0x0430,
          0x0442, 0x044C, 0x0020, 0x0442, 0x0435, 0x043A, 0x0441, 0x0442, 0x0020, 0x043F,
          0x0443, 0x0441, 0x0442, 0x043E, 0x0433, 0x043E, 0x0020, 0x0441, 0x043E, 0x0441,
          0x0442, 0x043E, 0x044F, 0x043D, 0x0438, 0x044F],
        tpl_status = Done,
        tpl_order = 1,
        tpl_description = (Some
         [0x0421, 0x0434, 0x0435, 0x043B, 0x0430, 0x0442, 0x044C, 0x0020, 0x0441, 0x043E,
          0x043E, 0x0431, 0x0449, 0x0435, 0x043D, 0x0438, 0x0435, 0x0020, 0x0434, 0x0440,
          0x0443, 0x0436, 0x0435, 0x043B, 0x044E, 0x0431, 0x043D, 0x044B, 0x043C, 0x0020,
          0x0438, 0x0020, 0x043F, 0x043E, 0x0431, 0x0443, 0x0436, 0x0434, 0x0430, 0x044E,
          0x0449, 0x0438, 0x043C, 0x0020, 0x043A, 0x0020, 0x0434, 0x0435, 0x0439, 0x0441,
          0x0442, 0x0432, 0x0438, 0x044E, 0x002E]),
        tpl_createdOffset = 42,
        tpl_statusFrom = (Some Backlog),
        tpl_statusOffset = (Some 50),
        tpl_descriptionOffset = (Some 56),
        tpl_messages = None\<rparr>]"

definition demoSeedTemplates_es :: "seed_template list" where
  "demoSeedTemplates_es =
     [\<lparr>tpl_title = str ''Planificar checklist de onboarding'',
        tpl_status = Backlog,
        tpl_order = 0,
        tpl_description = (Some (str ''Definir los primeros pasos para que el usuario cree una tarea en menos de 60 segundos.'')),
        tpl_createdOffset = 0,
        tpl_statusFrom = None,
        tpl_statusOffset = None,
        tpl_descriptionOffset = (Some 6),
        tpl_messages = None\<rparr>,
      \<lparr>tpl_title = str ''Definir eventos de analitica'',
        tpl_status = Backlog,
        tpl_order = 1,
        tpl_description = None,
        tpl_createdOffset = 4,
        tpl_statusFrom = None,
        tpl_statusOffset = None,
        tpl_descriptionOffset = None,
        tpl_messages = None\<rparr>,
      \<lparr>tpl_title = str ''Mejorar el arrastre y soltado'',
        tpl_status = In_progress,
        tpl_order = 0,
        tpl_description = (Some (str ''Ajustar el inicio, mantener la sombra de la tarjeta y evitar saltos de layout.'')),
        tpl_createdOffset = 12,
        tpl_statusFrom = (Some Backlog),
        tpl_statusOffset = (Some 18),
        tpl_descriptionOffset = (Some 22),
        tpl_messages = (Some [\<lparr>sm_text = str ''La tarjeta debe conservar su sombra original mientras se arrastra.'',
            sm_offset = 28, sm_author = str ''Alex''\<rparr>,
          \<lparr>sm_text = str ''Puedo entregar la animacion hoy si fijamos los offsets.'',
            sm_offset = 34, sm_author = str ''Maria''\<rparr>])\<rparr>,
      \<lparr>tpl_title = str ''Redactar notas de version'',
        tpl_status = In_progress,
        tpl_order = 1,
        tpl_description = None,
        tpl_createdOffset = 20,
        tpl_statusFrom = (Some Backlog),
        tpl_statusOffset = (Some 26),
        tpl_descriptionOffset = None,
        tpl_messages = None\<rparr>,
      \<lparr>tpl_title = str ''QA del layout movil'',
        tpl_status = In_progress,
        tpl_order = 2,
        tpl_description = (Some (str ''Verificar espaciado a 320px y que el tablero siga siendo desplazable.'')),
        tpl_createdOffset = 28,
        tpl_statusFrom = (Some Backlog),
        tpl_statusOffset = (Some 33),
        tpl_descriptionOffset = (Some 38),
        tpl_messages = None\<rparr>,
      \<lparr>tpl_title = str ''Configurar walkthrough de demo'',
        tpl_status = Done,
        tpl_order = 0,
        tpl_description = None,
        tpl_createdOffset = 36,
        tpl_statusFrom = (Some Backlog),
        tpl_statusOffset = (Some 44),
        tpl_descriptionOffset = None,
        tpl_messages = (Some [\<lparr>sm_text = str ''El walkthrough esta listo con 5 pasos y autofoco en los destacados.'',
            sm_offset = 52, sm_author = str ''Alex''\<rparr>,
          \<lparr>sm_text = str ''Agregue un boton de omitir y reinicio para QA.'',
            sm_offset = 58, sm_author = str ''Maria''\<rparr>])\<rparr>,
      \<lparr>tpl_title = str ''Pulir el texto del estado vacio'',
        tpl_status = Done,
        tpl_order = 1,
        tpl_description = (Some (str ''Hacer el mensaje del estado vacio optimista y orientado a la accion.'')),
        tpl_createdOffset = 42,
        tpl_statusFrom = (Some Backlog),
        tpl_statusOffset = (Some 50),
        tpl_descriptionOffset = (Some 56),
        tpl_messages = None\<rparr>]"

fun demoSeedTemplates :: "demo_language \<Rightarrow> seed_template list" where
  "demoSeedTemplates En = demoSeedTemplates_en"
| "demoSeedTemplates Ru = demoSeedTemplates_ru"
| "demoSeedTemplates Es = demoSeedTemplates_es"

definition DEMO_SEED_KEY :: js_string where
  "DEMO_SEED_KEY = str ''demo_seeded''"

definition minutes :: "int \<Rightarrow> int" where
  "minutes v = v * 60 * 1000"

text \<open>The three delete loops over the collected documents, by their identifiers.\<close>

fun delete_each :: "(doc_id \<Rightarrow> db \<Rightarrow> error + db) \<Rightarrow> doc_id list \<Rightarrow> db \<Rightarrow> error + db" where
  "delete_each del [] d = Inr d"
| "delete_each del (i # ids) d =
     (case del i d of Inl e \<Rightarrow> Inl e | Inr d1 \<Rightarrow> delete_each del ids d1)"

text \<open>
  The body of the loop over the templates, block by block: the optional status event, the
  optional description event and the messages each return the running \<open>updatedAt\<close> with
  the database. The actor of every seeded event is the constant "demo-user".
\<close>

definition seed_status_event ::
  "int \<Rightarrow> js_string \<Rightarrow> seed_template \<Rightarrow> int \<Rightarrow> db \<Rightarrow> int \<times> db" where
  "seed_status_event baseTime taskIdString task updatedAt' d =
     (case (tpl_statusFrom task, tpl_statusOffset task) of
        (Some sfrom, Some soff) \<Rightarrow>
          let statusAt = baseTime + minutes soff
          in (max updatedAt' statusAt,
              db_insert_event taskIdString Task_status_changed (str ''demo-user'')
                (empty_payload\<lparr>p_from := Some sfrom, p_to := Some (tpl_status task)\<rparr>) statusAt d)
      | _ \<Rightarrow> (updatedAt', d))"

definition seed_description_event ::
  "int \<Rightarrow> js_string \<Rightarrow> seed_template \<Rightarrow> int \<Rightarrow> db \<Rightarrow> int \<times> db" where
  "seed_description_event baseTime taskIdString task updatedAt' d =
     (case (tpl_description task, tpl_descriptionOffset task) of
        (Some de, Some doff) \<Rightarrow>
          if de = [] then (updatedAt', d)
          else
            let descriptionAt = baseTime + minutes doff
            in (max updatedAt' descriptionAt,
                db_insert_event taskIdString Task_description_updated (str ''demo-user'')
                  (empty_payload\<lparr>p_textPreview := Some (buildPreview de)\<rparr>) descriptionAt d)
      | _ \<Rightarrow> (updatedAt', d))"

fun seed_messages ::
  "int \<Rightarrow> js_string \<Rightarrow> seed_message list \<Rightarrow> int \<Rightarrow> db \<Rightarrow> int \<times> db" where
  "seed_messages baseTime taskIdString [] updatedAt' d = (updatedAt', d)"
| "seed_messages baseTime taskIdString (m # ms) updatedAt' d =
     (let messageAt = baseTime + minutes (sm_offset m);
          (messageId, d1) = db_insert_message taskIdString (sm_text m) (sm_author m) messageAt d;
          d2 = db_insert_event taskIdString Message_sent (str ''demo-user'')
                 (empty_payload\<lparr>p_textPreview := Some (buildPreview (sm_text m))\<rparr>) messageAt d1
      in seed_messages baseTime taskIdString ms (max updatedAt' messageAt) d2)"

definition seed_task :: "int \<Rightarrow> seed_template \<Rightarrow> db \<Rightarrow> error + db" where
  "seed_task baseTime task d =
     (let createdAt' = baseTime + minutes (tpl_createdOffset task);
          (taskId, d1) = db_insert_task (tpl_title task) (Canonical (tpl_status task))
                           (case tpl_description task of Some de \<Rightarrow> de | None \<Rightarrow> [])
                           (tpl_order task) createdAt' createdAt' d;
          d2 = db_insert_event taskId Task_created (str ''demo-user'') empty_payload createdAt' d1;
          (u3, d3) = seed_status_event baseTime taskId task createdAt' d2;
          (u4, d4) = seed_description_event baseTime taskId task u3 d3;
          (u5, d5) = (case tpl_messages task of
                        Some ms \<Rightarrow> seed_messages baseTime taskId ms u4 d4
                      | None \<Rightarrow> (u4, d4))
      in if u5 \<noteq> createdAt' then db_patch_task taskId (\<lambda>t. t\<lparr>updatedAt := u5\<rparr>) d5
         else Inr d5)"

fun seed_tasks :: "int \<Rightarrow> seed_template list \<Rightarrow> db \<Rightarrow> error + db" where
  "seed_tasks baseTime [] d = Inr d"
| "seed_tasks baseTime (task # rest) d =
     (case seed_task baseTime task d of Inl e \<Rightarrow> Inl e | Inr d1 \<Rightarrow> seed_tasks baseTime rest d1)"

definition seedDemoData :: "int \<Rightarrow> demo_language \<Rightarrow> db \<Rightarrow> error + db \<times> js_string" where
  "seedDemoData now language d =
     (let seededDoc = find (\<lambda>a. as_key a = DEMO_SEED_KEY) (app_state d) in
      case (if (case seededDoc of Some doc \<Rightarrow> as_value doc | None \<Rightarrow> False)
            then (case delete_each db_delete_task (map task_id (tasks d)) d of
                    Inl e \<Rightarrow> Inl e
                  | Inr d1 \<Rightarrow>
                      (case delete_each db_delete_message (map msg_id (messages d1)) d1 of
                         Inl e \<Rightarrow> Inl e
                       | Inr d2 \<Rightarrow> delete_each db_delete_event (map ev_id (task_events d2)) d2))
            else Inr d) of
        Inl e \<Rightarrow> Inl e
      | Inr d3 \<Rightarrow>
          (case seed_tasks (now - minutes 85) (demoSeedTemplates language) d3 of
             Inl e \<Rightarrow> Inl e
           | Inr d4 \<Rightarrow>
               (case seededDoc of
                  Some doc \<Rightarrow>
                    (case db_patch_app_state (as_id doc)
                            (\<lambda>a. a\<lparr>as_value := True, as_updatedAt := now\<rparr>) d4 of
                       Inl e \<Rightarrow> Inl e
                     | Inr d5 \<Rightarrow> Inr (d5, str ''created''))
                | None \<Rightarrow>
                    Inr (db_insert_app_state DEMO_SEED_KEY True now now d4, str ''created''))))"

section \<open>convex/messages: send\<close>

text \<open>
  convex/messages: \<^verbatim>\<open>send\<close>. The file has its own copies of \<^verbatim>\<open>normalizeActor\<close> and
  \<^verbatim>\<open>buildPreview\<close>, word for word those of convex/tasks. An empty string is falsy.
\<close>

definition send ::
  "int \<Rightarrow> js_string \<Rightarrow> js_string \<Rightarrow> js_string \<Rightarrow> db \<Rightarrow> db \<times> doc_id option" where
  "send now a_taskId a_text a_author d =
     (let text = trim a_text;
          author = trim a_author
      in if text = [] \<or> author = [] then (d, None)
         else
           let (messageId, d1) = db_insert_message a_taskId text author now d;
               d2 = db_insert_event a_taskId Message_sent (normalizeActor (Some author))
                      (empty_payload\<lparr>p_textPreview := Some (buildPreview text)\<rparr>) now d1
           in (d2, Some messageId))"

section \<open>src/domain/todo: the client reducer\<close>

text \<open>
  src/domain/todo: the client reducer, a pure function of the state and the action. Its
  tasks carry no order field: their place in the list is their rank. Field names are
  prefixed (\<open>ct_\<close> for a task, \<open>state_\<close> for the state); the reading of \<^verbatim>\<open>now()\<close> is
  the argument \<open>timestamp\<close>. A \<^verbatim>\<open>restore\<close> index is an integer, or \<open>None\<close> for a
  number that is not finite.
\<close>

record client_task =
  ct_id :: js_string
  ct_title :: js_string
  ct_description :: js_string
  ct_status :: task_status
  ct_createdAt :: int
  ct_updatedAt :: int

datatype filter_kind = Filter_all | Filter_active | Filter_completed

record state =
  state_tasks :: "client_task list"
  state_filter :: filter_kind

datatype action =
    Add js_string
  | SetStatus js_string task_status
  | CycleStatus js_string
  | Remove js_string
  | Restore client_task "int option"
  | SetFilter filter_kind
  | Reorder "js_string list"
  | Rehydrate state
  | UpdateDescription js_string js_string

text \<open>The decimal digits of a number, as the template literal of \<^verbatim>\<open>add\<close> prints them.\<close>

fun digits :: "nat \<Rightarrow> js_string" where
  "digits n = (if n < 10 then [of_nat (48 + n)] else digits (n div 10) @ [of_nat (48 + n mod 10)])"

declare digits.simps [simp del]

definition number_toString :: "int \<Rightarrow> js_string" where
  "number_toString n = (if n < 0 then 0x2D # digits (nat (- n)) else digits (nat n))"

text \<open>
  The first loop of the \<^verbatim>\<open>reorder\<close> case: the tasks found for the listed identifiers,
  in list order, and the set of identifiers found.
\<close>

fun reorder_listed ::
  "(js_string \<rightharpoonup> client_task) \<Rightarrow> js_string list \<Rightarrow> client_task list \<Rightarrow> js_string set
     \<Rightarrow> client_task list \<times> js_string set" where
  "reorder_listed taskMap [] nextTasks used = (nextTasks, used)"
| "reorder_listed taskMap (i # ids) nextTasks used =
     (case taskMap i of
        None \<Rightarrow> reorder_listed taskMap ids nextTasks used
      | Some task \<Rightarrow> reorder_listed taskMap ids (nextTasks @ [task]) (insert i used))"

fun reducer :: "int \<Rightarrow> state \<Rightarrow> action \<Rightarrow> state" where
  "reducer timestamp st (Add a_title) =
     (let trimmed = trim a_title in
      if trimmed = [] then st
      else st\<lparr>state_tasks :=
                \<lparr>ct_id = str ''t-'' @ number_toString timestamp, ct_title = trimmed,
                  ct_description = [], ct_status = Backlog, ct_createdAt = timestamp,
                  ct_updatedAt = timestamp\<rparr> # state_tasks st\<rparr>)"
| "reducer timestamp st (SetStatus a_id a_status) =
     (let changed = list_ex (\<lambda>task. ct_id task = a_id \<and> ct_status task \<noteq> a_status) (state_tasks st);
          nextTasks = map (\<lambda>task. if ct_id task \<noteq> a_id then task
                                    else if ct_status task = a_status then task
                                    else task\<lparr>ct_status := a_status, ct_updatedAt := timestamp\<rparr>)
                        (state_tasks st)
      in if \<not> changed then st else st\<lparr>state_tasks := nextTasks\<rparr>)"
| "reducer timestamp st (CycleStatus a_id) =
     (let changed = list_ex (\<lambda>task. ct_id task = a_id) (state_tasks st);
          nextTasks = map (\<lambda>task. if ct_id task \<noteq> a_id then task
                                    else task\<lparr>ct_status := nextStatus (ct_status task),
                                              ct_updatedAt := timestamp\<rparr>)
                        (state_tasks st)
      in if \<not> changed then st else st\<lparr>state_tasks := nextTasks\<rparr>)"
| "reducer timestamp st (Remove a_id) =
     st\<lparr>state_tasks := filter (\<lambda>task. ct_id task \<noteq> a_id) (state_tasks st)\<rparr>"
| "reducer timestamp st (Restore a_task a_index) =
     (let safeIndex = (case a_index of
                         Some n \<Rightarrow> nat (min (max 0 n) (int (length (state_tasks st))))
                       | None \<Rightarrow> 0)
      in st\<lparr>state_tasks := take safeIndex (state_tasks st) @ a_task # drop safeIndex (state_tasks st)\<rparr>)"
| "reducer timestamp st (SetFilter a_filter) = st\<lparr>state_filter := a_filter\<rparr>"
| "reducer timestamp st (Reorder a_orderedIds) =
     (if a_orderedIds = [] then st
      else
        let taskMap = map_of (rev (map (\<lambda>task. (ct_id task, task)) (state_tasks st)));
            (nextTasks, used) = reorder_listed taskMap a_orderedIds [] {}
        in if nextTasks = [] then st
           else st\<lparr>state_tasks :=
                     nextTasks @ filter (\<lambda>task. ct_id task \<notin> used) (state_tasks st)\<rparr>)"
| "reducer timestamp st (Rehydrate a_state) = a_state"
| "reducer timestamp st (UpdateDescription a_id a_description) =
     (let changed = list_ex (\<lambda>task. ct_id task = a_id \<and> ct_description task \<noteq> a_description)
                      (state_tasks st);
          nextTasks = map (\<lambda>task. if ct_id task \<noteq> a_id then task
                                    else if ct_description task = a_description then task
                                    else task\<lparr>ct_description := a_description,
                                              ct_updatedAt := timestamp\<rparr>)
                        (state_tasks st)
      in if \<not> changed then st else st\<lparr>state_tasks := nextTasks\<rparr>)"

section \<open>api/stt: the speech-to-text proxy handler\<close>

text \<open>
  api/stt: the speech-to-text proxy handler. The handler talks to the outside world: it
  reads the environment, the request body, the clock, and the answers of the upstream
  service. The model takes what the world gives as an argument: the token, the outcome of
  reading and parsing the body (the file in field "file", if any), the outcome of each
  \<^verbatim>\<open>fetch\<close>, and for the poll loop one entry per loop test, the reading of
  \<^verbatim>\<open>Date.now()\<close> at the test with the outcome of the status request that follows it.
  An awaited call may throw. Of a parsed upstream body the model keeps the fields the
  handler reads, each \<open>None\<close> unless it is a string. Error messages are named, not spelled.
\<close>

datatype 'a outcome = Throws | Returns 'a

datatype header_value = Header_absent | Header_string js_string | Header_array "js_string list"

record stt_request =
  req_method :: "js_string option"
  req_content_type :: header_value

record multipart_file =
  mf_filename :: js_string
  mf_contentType :: js_string

record upload_response =
  up_ok :: bool
  up_status :: nat
  up_task_id :: "js_string option"

record status_response =
  st_ok :: bool
  st_status :: nat
  st_state :: "js_string option"

record transcription_response =
  tr_ok :: bool
  tr_status :: nat
  tr_segments :: "js_string option list"
  tr_fallback :: "js_string option list"

record stt_world =
  w_token :: "js_string option"
  w_file :: "multipart_file option outcome"
  w_upload :: "upload_response outcome"
  w_startedAt :: int
  w_rounds :: "(int \<times> status_response outcome) list"
  w_transcription :: "transcription_response outcome"

datatype stt_error =
    Method_not_allowed | Missing_token | Expected_multipart | Boundary_missing | File_not_found
  | Upload_error | No_task_id | Status_error | Transcription_failed | Transcription_timeout
  | Transcription_error | Unexpected

datatype stt_body =
    Error_body stt_error
  | Error_task_body stt_error js_string js_string
  | Result_body js_string js_string

record stt_response =
  res_status :: nat
  res_body :: stt_body

datatype upstream_call = Upload_call | Status_call | Transcription_call

fun join :: "js_string \<Rightarrow> js_string list \<Rightarrow> js_string" where
  "join sep [] = []"
| "join sep [x] = x"
| "join sep (x # y # ys) = x @ sep @ join sep (y # ys)"

fun js_includes :: "js_string \<Rightarrow> js_string \<Rightarrow> bool" where
  "js_includes [] sub = (sub = [])"
| "js_includes (c # cs) sub = (take (length sub) (c # cs) = sub \<or> js_includes cs sub)"

text \<open>
  The regular expression \<^verbatim>\<open>/boundary=([^;]+)/i\<close>: the leftmost place where
  "boundary=" stands, in any ASCII case, before at least one character other than ";"; the
  capture runs up to the next ";". Then \<^verbatim>\<open>replace(/^"|"$/g, '')\<close> drops one
  leading and one trailing double quote.
\<close>

definition ascii_lower :: "16 word \<Rightarrow> 16 word" where
  "ascii_lower c = (if 0x41 \<le> c \<and> c \<le> 0x5A then c + 0x20 else c)"

fun match_boundary :: "js_string \<Rightarrow> js_string option" where
  "match_boundary [] = None"
| "match_boundary (c # cs) =
     (let capture = takeWhile (\<lambda>x. x \<noteq> 0x3B) (drop 9 (c # cs))
      in if map ascii_lower (take 9 (c # cs)) = str ''boundary='' \<and> capture \<noteq> []
         then Some capture
         else match_boundary cs)"

definition strip_quotes :: "js_string \<Rightarrow> js_string" where
  "strip_quotes s =
     (let s1 = (case s of [] \<Rightarrow> [] | c # cs \<Rightarrow> if c = 0x22 then cs else s)
      in if s1 \<noteq> [] \<and> last s1 = 0x22 then butlast s1 else s1)"

text \<open>
  The poll loop. It ends by a throw, by an upstream answer that is not ok (with its
  status code), or with the value of \<^verbatim>\<open>status\<close> at the exit; the number counts the
  status requests sent. The world's list running out before the loop ends is \<open>None\<close>.
\<close>

datatype poll_end = Poll_threw | Poll_not_ok nat | Poll_status js_string

fun poll_loop ::
  "int \<Rightarrow> js_string \<Rightarrow> (int \<times> status_response outcome) list \<Rightarrow> (poll_end \<times> nat) option" where
  "poll_loop startedAt status' [] = None"
| "poll_loop startedAt status' ((t, r) # rest) =
     (if t - startedAt < 60000
      then (case r of
              Throws \<Rightarrow> Some (Poll_threw, 1)
            | Returns statusResponse \<Rightarrow>
                if \<not> st_ok statusResponse then Some (Poll_not_ok (st_status statusResponse), 1)
                else
                  let status'' = (case st_state statusResponse of Some s \<Rightarrow> s | None \<Rightarrow> status')
                  in if status'' = str ''completed'' \<or> status'' = str ''failed''
                     then Some (Poll_status status'', 1)
                     else map_option (\<lambda>(e, n). (e, Suc n)) (poll_loop startedAt status'' rest))
      else Some (Poll_status status', 0))"

fun fallback_text :: "js_string option list \<Rightarrow> js_string \<Rightarrow> js_string" where
  "fallback_text [] text = text"
| "fallback_text (None # fallbackFields) text = fallback_text fallbackFields text"
| "fallback_text (Some v # fallbackFields) text =
     (if trim v \<noteq> [] then trim v else fallback_text fallbackFields (trim v))"

definition transcript_text :: "transcription_response \<Rightarrow> js_string" where
  "transcript_text tr =
     (let segmentText = filter (\<lambda>s. s \<noteq> [])
                          (map (\<lambda>segment. case segment of Some t \<Rightarrow> trim t | None \<Rightarrow> [])
                             (tr_segments tr));
          text = join [0x0A] segmentText
      in if text = [] then fallback_text (tr_fallback tr) text else text)"

definition contentType_of :: "header_value \<Rightarrow> js_string" where
  "contentType_of h =
     (case h of
        Header_array xs \<Rightarrow> join (str '';'') xs
      | Header_string s \<Rightarrow> s
      | Header_absent \<Rightarrow> [])"

definition respond :: "nat \<Rightarrow> stt_body \<Rightarrow> upstream_call list
    \<Rightarrow> (stt_response \<times> upstream_call list) option" where
  "respond code body calls = Some (\<lparr>res_status = code, res_body = body\<rparr>, calls)"

definition handler :: "stt_request \<Rightarrow> stt_world \<Rightarrow> (stt_response \<times> upstream_call list) option" where
  "handler req w =
     (if req_method req \<noteq> Some (str ''POST'') then respond 405 (Error_body Method_not_allowed) []
      else if \<not> truthy (w_token w) then respond 400 (Error_body Missing_token) []
      else
        let contentType = contentType_of (req_content_type req) in
        if \<not> js_includes contentType (str ''multipart/form-data'')
        then respond 400 (Error_body Expected_multipart) []
        else if \<not> truthy (map_option strip_quotes (match_boundary contentType))
        then respond 400 (Error_body Boundary_missing) []
        else
          (case w_file w of
             Throws \<Rightarrow> respond 500 (Error_body Unexpected) []
           | Returns None \<Rightarrow> respond 400 (Error_body File_not_found) []
           | Returns (Some file) \<Rightarrow>
               (case w_upload w of
                  Throws \<Rightarrow> respond 500 (Error_body Unexpected) [Upload_call]
                | Returns uploadResponse \<Rightarrow>
                    if \<not> up_ok uploadResponse
                    then respond (up_status uploadResponse) (Error_body Upload_error) [Upload_call]
                    else
                      let taskId = (case up_task_id uploadResponse of Some t \<Rightarrow> t | None \<Rightarrow> [])
                      in if taskId = [] then respond 502 (Error_body No_task_id) [Upload_call]
                         else
                           (case poll_loop (w_startedAt w) (str ''pending'') (w_rounds w) of
                              None \<Rightarrow> None
                            | Some (Poll_threw, n) \<Rightarrow>
                                respond 500 (Error_body Unexpected)
                                  (Upload_call # replicate n Status_call)
                            | Some (Poll_not_ok code, n) \<Rightarrow>
                                respond code (Error_body Status_error)
                                  (Upload_call # replicate n Status_call)
                            | Some (Poll_status status', n) \<Rightarrow>
                                if status' \<noteq> str ''completed''
                                then if status' = str ''failed''
                                     then respond 502
                                            (Error_task_body Transcription_failed taskId status')
                                            (Upload_call # replicate n Status_call)
                                     else respond 504
                                            (Error_task_body Transcription_timeout taskId
                                               (str ''timeout''))
                                            (Upload_call # replicate n Status_call)
                                else
                                  (case w_transcription w of
                                     Throws \<Rightarrow>
                                       respond 500 (Error_body Unexpected)
                                         (Upload_call # replicate n Status_call
                                            @ [Transcription_call])
                                   | Returns tr \<Rightarrow>
                                       if \<not> tr_ok tr
                                       then respond (tr_status tr) (Error_body Transcription_error)
                                              (Upload_call # replicate n Status_call
                                                 @ [Transcription_call])
                                       else respond 200 (Result_body (transcript_text tr) taskId)
                                              (Upload_call # replicate n Status_call
                                                 @ [Transcription_call]))))))"

section \<open>Notions used in the statements\<close>

text \<open>The journal entries that are patches.\<close>

definition is_patch :: "db_write \<Rightarrow> bool" where
  "is_patch w = (case w of Patched tb i \<Rightarrow> True | _ \<Rightarrow> False)"

text \<open>
  The column rewrite of \<open>reorder\<close> as one sequence of patches: the entries
  (identifier, index, normalised status) of all columns in the order the loops visit them,
  and the task a sequence of entries leaves behind (the last entry of an identifier wins).
\<close>

type_synonym patch_entry = "doc_id \<times> nat \<times> task_status"

definition column_entries :: "column \<Rightarrow> patch_entry list" where
  "column_entries c =
     map (\<lambda>(k, i). (i, k, normalizeLegacyStatus (Some (col_status c)))) (enumerate 0 (orderedIds c))"

definition patch_entries :: "column list \<Rightarrow> patch_entry list" where
  "patch_entries cs = concat (map column_entries cs)"

fun patch_all :: "int \<Rightarrow> patch_entry list \<Rightarrow> db \<Rightarrow> error + db" where
  "patch_all now [] d = Inr d"
| "patch_all now ((i, k, s) # es) d =
     (case db_patch_task i (\<lambda>t. t\<lparr>order := int k, status := Canonical s, updatedAt := now\<rparr>) d of
        Inl e \<Rightarrow> Inl e
      | Inr d1 \<Rightarrow> patch_all now es d1)"

definition rewritten :: "int \<Rightarrow> patch_entry list \<Rightarrow> task \<Rightarrow> task" where
  "rewritten now es t =
     (case map_of (rev es) (task_id t) of
        None \<Rightarrow> t
      | Some (k, s) \<Rightarrow> t\<lparr>order := int k, status := Canonical s, updatedAt := now\<rparr>)"

text \<open>
  Order values that are unique and contiguous from 0 upward: sorted, they are
  \<open>0, 1, \<dots>, n - 1\<close>.
\<close>

definition contiguous_from_zero :: "int list \<Rightarrow> bool" where
  "contiguous_from_zero os \<longleftrightarrow> sort os = map int [0..<length os]"

text \<open>The events an operation appended to the event table.\<close>

definition new_events :: "db \<Rightarrow> db \<Rightarrow> task_event list" where
  "new_events d d' = drop (length (task_events d)) (task_events d')"

text \<open>The flag \<^verbatim>\<open>demo_seeded\<close> as \<^verbatim>\<open>seedDemoData\<close> reads it.\<close>

definition demo_seeded :: "db \<Rightarrow> bool" where
  "demo_seeded d =
     (case find (\<lambda>a. as_key a = DEMO_SEED_KEY) (app_state d) of
        Some doc \<Rightarrow> as_value doc
      | None \<Rightarrow> False)"

definition is_delete :: "db_write \<Rightarrow> bool" where
  "is_delete w = (case w of Deleted tb i \<Rightarrow> True | _ \<Rightarrow> False)"

text \<open>
  A later database that keeps every task, message and event of an earlier one in place and
  has issued no delete in between.
\<close>

definition only_inserts :: "db \<Rightarrow> db \<Rightarrow> bool" where
  "only_inserts d d' \<longleftrightarrow>
     (\<exists>ts. tasks d' = tasks d @ ts)
     \<and> (\<exists>ms. messages d' = messages d @ ms)
     \<and> (\<exists>es. task_events d' = task_events d @ es)
     \<and> (\<exists>ws. journal d' = journal d @ ws \<and> (\<forall>w \<in> set ws. \<not> is_delete w))"

text \<open>Steps that insert messages and events only: the tasks stay as they are.\<close>

definition side_inserts :: "db \<Rightarrow> db \<Rightarrow> bool" where
  "side_inserts d d' \<longleftrightarrow> only_inserts d d' \<and> tasks d' = tasks d \<and> app_state d' = app_state d"

text \<open>
  The requests that pass the checks before the body is read, and those that get as far as
  the poll loop with the task identifier \<open>taskId\<close>.
\<close>

definition passes_checks :: "stt_request \<Rightarrow> stt_world \<Rightarrow> bool" where
  "passes_checks req w \<longleftrightarrow>
     req_method req = Some (str ''POST'') \<and> truthy (w_token w)
     \<and> js_includes (contentType_of (req_content_type req)) (str ''multipart/form-data'')
     \<and> truthy (map_option strip_quotes (match_boundary (contentType_of (req_content_type req))))"

definition reaches_polling :: "stt_request \<Rightarrow> stt_world \<Rightarrow> js_string \<Rightarrow> bool" where
  "reaches_polling req w taskId \<longleftrightarrow>
     passes_checks req w
     \<and> (case w_file w of Returns (Some file) \<Rightarrow> True | _ \<Rightarrow> False)
     \<and> (case w_upload w of
           Returns uploadResponse \<Rightarrow>
             up_ok uploadResponse \<and> up_task_id uploadResponse = Some taskId
         | Throws \<Rightarrow> False)
     \<and> taskId \<noteq> []"

text \<open>
  A round of the poll loop that leaves it running: the loop test passes (the hard timeout
  of 60000 ms is not reached), the status request is answered ok, and the state it reports,
  if any, is not terminal.
\<close>

definition pending_round :: "int \<Rightarrow> int \<times> status_response outcome \<Rightarrow> bool" where
  "pending_round startedAt round \<longleftrightarrow>
     fst round - startedAt < 60000
     \<and> (case snd round of
           Returns resp \<Rightarrow>
             st_ok resp \<and> st_state resp \<noteq> Some (str ''completed'')
             \<and> st_state resp \<noteq> Some (str ''failed'')
         | Throws \<Rightarrow> False)"

section \<open>Sample data for the concrete instances\<close>

text \<open>A stored task with the given identifier, status, order and time stamp, and a database holding the given tasks and nothing else.\<close>

definition demo_task :: "string \<Rightarrow> legacy_task_status \<Rightarrow> int \<Rightarrow> int \<Rightarrow> task" where
  "demo_task n s ord at =
     \<lparr>task_id = str n, title = str n, status = s, description = [], order = ord,
      createdAt = at, updatedAt = at\<rparr>"

definition demo_db :: "task list \<Rightarrow> db" where
  "demo_db ts = \<lparr>tasks = ts, messages = [], task_events = [], app_state = [], journal = []\<rparr>"

text \<open>A client task, a database with the seed flag set to the given value, and a request to the proxy with the world that answers it.\<close>

definition client_demo_task :: "string \<Rightarrow> task_status \<Rightarrow> int \<Rightarrow> client_task" where
  "client_demo_task n s at =
     \<lparr>ct_id = str n, ct_title = str n, ct_description = [], ct_status = s, ct_createdAt = at,
      ct_updatedAt = at\<rparr>"

definition seeded_demo_db :: "bool \<Rightarrow> db" where
  "seeded_demo_db v =
     (demo_db [demo_task ''A'' (Canonical Backlog) 0 5])
       \<lparr>app_state := [\<lparr>as_id = str ''S'', as_key = DEMO_SEED_KEY, as_value = v,
                        as_createdAt = 1, as_updatedAt = 1\<rparr>]\<rparr>"

definition demo_request :: "string \<Rightarrow> stt_request" where
  "demo_request m =
     \<lparr>req_method = Some (str m),
      req_content_type = Header_string (str ''multipart/form-data; boundary=xyz'')\<rparr>"

definition demo_world ::
  "(int \<times> status_response outcome) list \<Rightarrow> transcription_response outcome \<Rightarrow> stt_world" where
  "demo_world rounds tr =
     \<lparr>w_token = Some (str ''tok''),
      w_file = Returns (Some \<lparr>mf_filename = str ''a.webm'', mf_contentType = str ''audio/webm''\<rparr>),
      w_upload = Returns \<lparr>up_ok = True, up_status = 200, up_task_id = Some (str ''T1'')\<rparr>,
      w_startedAt = 1000, w_rounds = rounds, w_transcription = tr\<rparr>"

definition demo_state :: "string \<Rightarrow> status_response outcome" where
  "demo_state s = Returns \<lparr>st_ok = True, st_status = 200, st_state = Some (str s)\<rparr>"


section \<open>Basic facts about the database and the helpers\<close>

lemma normalize_Canonical [simp]: "normalizeLegacyStatus (Some (Canonical x)) = x"
  by (cases x) simp_all

lemma db_get_SomeD: "db_get d i = Some t \<Longrightarrow> t \<in> set (tasks d) \<and> task_id t = i"
  by (auto simp: db_get_def find_Some_iff)

lemma db_get_None_iff: "db_get d i = None \<longleftrightarrow> i \<notin> task_id ` set (tasks d)"
  by (auto simp: db_get_def find_None_iff)

lemma find_map_patch:
  assumes "\<And>u. task_id (f u) = task_id u"
  shows "find (\<lambda>t. task_id t = k) (map (\<lambda>u. if task_id u = i then f u else u) xs)
     = (if k = i then map_option f (find (\<lambda>t. task_id t = k) xs)
        else find (\<lambda>t. task_id t = k) xs)"
  by (induction xs) (auto simp: assms)









lemma db_get_in_ids: "db_get d i = Some t \<Longrightarrow> i \<in> task_id ` set (tasks d)"
  using db_get_SomeD by force

section \<open>setStatus\<close>



section \<open>cycleStatus\<close>

lemma db_get_insert_event [simp]:
  "db_get (db_insert_event tid ty ac pl cr d) k = db_get d k"
  by (simp add: db_get_def db_insert_event_def Let_def)

lemma db_patch_task_existing:
  assumes "db_get d i = Some t"
  shows "db_patch_task i f d =
     Inr (d\<lparr>tasks := map (\<lambda>u. if task_id u = i then f u else u) (tasks d),
            journal := journal d @ [Patched Tasks i]\<rparr>)"
  using db_get_in_ids [OF assms] by (simp add: db_patch_task_def)

lemma db_get_after_patch:
  assumes "\<And>u. task_id (f u) = task_id u"
  shows "db_get (d\<lparr>tasks := map (\<lambda>u. if task_id u = i then f u else u) (tasks d),
                   journal := j\<rparr>) k
     = (if k = i then map_option f (db_get d k) else db_get d k)"
  using find_map_patch [of f k i "tasks d", OF assms] by (simp add: db_get_def)

lemma cycleStatus_step:
  assumes "db_get d i = Some t"
  shows "\<exists>d'. cycleStatus now i a d
             = Inr (d', Some (nextStatus (normalizeLegacyStatus (Some (status t)))))
           \<and> db_get d' i
             = Some (t\<lparr>status := Canonical (nextStatus (normalizeLegacyStatus (Some (status t)))),
                      order := getNextOrder d (nextStatus (normalizeLegacyStatus (Some (status t)))),
                      updatedAt := now\<rparr>)"
  using assms
  by (simp add: cycleStatus_def Let_def db_patch_task_existing db_get_after_patch)

text \<open>
  Claim C5 (amended). For an existing task whose normalised status is backlog, three calls of
  \<open>cycleStatus\<close> succeed, return in_progress, done and backlog in this order and store each
  as the task's status. Every call sets \<open>updatedAt\<close> to its own clock reading, so
  \<open>updatedAt\<close> increases strictly over the calls exactly when the clock readings do
  (starting above the previous \<open>updatedAt\<close>).
\<close>

theorem cycleStatus_three_times:
  assumes "db_get d i = Some t"
    and "normalizeLegacyStatus (Some (status t)) = Backlog"
  shows "\<exists>d1 d2 d3 t1 t2 t3.
           cycleStatus n1 i a1 d = Inr (d1, Some In_progress)
         \<and> db_get d1 i = Some t1 \<and> status t1 = Canonical In_progress \<and> updatedAt t1 = n1
         \<and> cycleStatus n2 i a2 d1 = Inr (d2, Some Done)
         \<and> db_get d2 i = Some t2 \<and> status t2 = Canonical Done \<and> updatedAt t2 = n2
         \<and> cycleStatus n3 i a3 d2 = Inr (d3, Some Backlog)
         \<and> db_get d3 i = Some t3 \<and> status t3 = Canonical Backlog \<and> updatedAt t3 = n3
         \<and> ((updatedAt t < updatedAt t1 \<and> updatedAt t1 < updatedAt t2 \<and> updatedAt t2 < updatedAt t3)
              \<longleftrightarrow> (updatedAt t < n1 \<and> n1 < n2 \<and> n2 < n3))"
proof -
  from cycleStatus_step [OF assms(1), of n1 a1] assms(2)
  obtain d1 t1 where 1: "cycleStatus n1 i a1 d = Inr (d1, Some In_progress)"
    "db_get d1 i = Some t1" "status t1 = Canonical In_progress" "updatedAt t1 = n1"
    by auto
  from cycleStatus_step [OF 1(2), of n2 a2] 1(3)
  obtain d2 t2 where 2: "cycleStatus n2 i a2 d1 = Inr (d2, Some Done)"
    "db_get d2 i = Some t2" "status t2 = Canonical Done" "updatedAt t2 = n2"
    by auto
  from cycleStatus_step [OF 2(2), of n3 a3] 2(3)
  obtain d3 t3 where 3: "cycleStatus n3 i a3 d2 = Inr (d3, Some Backlog)"
    "db_get d3 i = Some t3" "status t3 = Canonical Backlog" "updatedAt t3 = n3"
    by auto
  from 1 2 3 show ?thesis
    by (intro exI [of _ d1] exI [of _ d2] exI [of _ d3] exI [of _ t1] exI [of _ t2] exI [of _ t3])
       simp
qed

theorem cycleStatus_three_times_witness:
  "db_get (demo_db [demo_task ''A'' Active 0 5]) (str ''A'') = Some (demo_task ''A'' Active 0 5)
   \<and> normalizeLegacyStatus (Some (status (demo_task ''A'' Active 0 5))) = Backlog
   \<and> (\<exists>d1 d2 d3.
         cycleStatus 6 (str ''A'') None (demo_db [demo_task ''A'' Active 0 5]) = Inr (d1, Some In_progress)
       \<and> map status (tasks d1) = [Canonical In_progress] \<and> map updatedAt (tasks d1) = [6]
       \<and> cycleStatus 7 (str ''A'') None d1 = Inr (d2, Some Done)
       \<and> map status (tasks d2) = [Canonical Done] \<and> map updatedAt (tasks d2) = [7]
       \<and> cycleStatus 8 (str ''A'') None d2 = Inr (d3, Some Backlog)
       \<and> map status (tasks d3) = [Canonical Backlog] \<and> map updatedAt (tasks d3) = [8])"
proof -
  let ?d = "demo_db [demo_task ''A'' Active 0 5]"
  have g: "db_get ?d (str ''A'') = Some (demo_task ''A'' Active 0 5)"
    by (simp add: db_get_def demo_db_def demo_task_def str_def)
  have n: "normalizeLegacyStatus (Some (status (demo_task ''A'' Active 0 5))) = Backlog"
    by (simp add: demo_task_def)
  from cycleStatus_three_times [OF g n, of 6 None 7 None 8 None]
  obtain d1 d2 d3 t1 t2 t3 where
      c1: "cycleStatus 6 (str ''A'') None ?d = Inr (d1, Some In_progress)"
      and g1: "db_get d1 (str ''A'') = Some t1" "status t1 = Canonical In_progress" "updatedAt t1 = 6"
      and c2: "cycleStatus 7 (str ''A'') None d1 = Inr (d2, Some Done)"
      and g2: "db_get d2 (str ''A'') = Some t2" "status t2 = Canonical Done" "updatedAt t2 = 7"
      and c3: "cycleStatus 8 (str ''A'') None d2 = Inr (d3, Some Backlog)"
      and g3: "db_get d3 (str ''A'') = Some t3" "status t3 = Canonical Backlog" "updatedAt t3 = 8"
    by blast
  have one: "length (tasks d') = 1 \<and> db_get d' (str ''A'') = Some u
      \<Longrightarrow> map status (tasks d') = [status u] \<and> map updatedAt (tasks d') = [updatedAt u]
          \<and> (\<forall>n b d''. cycleStatus n (str ''A'') b d' = Inr (d'', r) \<longrightarrow> length (tasks d'') = 1)"
    for d' u r
    by (cases "tasks d'")
       (auto simp: db_get_def cycleStatus_def Let_def db_patch_task_def db_insert_event_def
          split: if_splits)
  have l0: "length (tasks ?d) = 1" by (simp add: demo_db_def)
  have l1: "length (tasks d1) = 1" using one [of ?d, OF conjI [OF l0 g]] c1 by blast
  have l2: "length (tasks d2) = 1" using one [of d1, OF conjI [OF l1 g1(1)]] c2 by blast
  have l3: "length (tasks d3) = 1" using one [of d2, OF conjI [OF l2 g2(1)]] c3 by blast
  from one [of d1, OF conjI [OF l1 g1(1)]] one [of d2, OF conjI [OF l2 g2(1)]]
    one [of d3, OF conjI [OF l3 g3(1)]] g1 g2 g3 c1 c2 c3 g n
  show ?thesis by auto
qed

text \<open>
  A call that reads the clock value the task already carries changes the status and leaves
  \<open>updatedAt\<close> where it was: the timestamps are not strictly increasing by themselves.
\<close>

theorem cycleStatus_same_clock_counterexample:
  "map status (tasks (demo_db [demo_task ''A'' (Canonical Backlog) 0 5])) = [Canonical Backlog]
   \<and> map updatedAt (tasks (demo_db [demo_task ''A'' (Canonical Backlog) 0 5])) = [5]
   \<and> (case cycleStatus 5 (str ''A'') None (demo_db [demo_task ''A'' (Canonical Backlog) 0 5]) of
         Inl e \<Rightarrow> False
       | Inr (d', r) \<Rightarrow>
           r = Some In_progress \<and> map status (tasks d') = [Canonical In_progress]
           \<and> map updatedAt (tasks d') = [5])"
  by (simp add: cycleStatus_def db_get_def demo_db_def demo_task_def str_def Let_def
        db_patch_task_def db_insert_event_def)

section \<open>updateDescription\<close>

text \<open>
  Claim C6 (amended). For an existing task, two successive calls of \<open>updateDescription\<close>
  with the same text: the second call never writes. The first call writes exactly when the
  text differs from the stored description: then it issues one patch (description and
  \<open>updatedAt\<close>) and inserts one \<open>task_description_updated\<close> event whose preview is the
  first 80 code units of the trimmed text; when the text equals the stored description
  neither call writes.
\<close>

theorem updateDescription_twice:
  assumes "db_get d i = Some t"
  shows "\<exists>d1. updateDescription n1 i text a1 d = Inr d1
            \<and> updateDescription n2 i text a2 d1 = Inr d1
            \<and> (description t = text \<longrightarrow> d1 = d)
            \<and> (description t \<noteq> text \<longrightarrow>
                 (\<exists>e. d1 = d\<lparr>tasks := map (\<lambda>u. if task_id u = i
                                               then u\<lparr>description := text, updatedAt := n1\<rparr>
                                               else u) (tasks d),
                             task_events := task_events d @ [e],
                             journal := journal d @ [Patched Tasks i, Inserted Task_events (ev_id e)]\<rparr>
                    \<and> ev_taskId e = i \<and> ev_type e = Task_description_updated
                    \<and> ev_actor e = normalizeActor a1
                    \<and> ev_payload e = empty_payload\<lparr>p_textPreview := Some (take 80 (trim text))\<rparr>
                    \<and> ev_createdAt e = n1))"
proof (cases "description t = text")
  case True
  then have "updateDescription n i text a d = Inr d" for n a
    using assms by (simp add: updateDescription_def)
  with True show ?thesis by auto
next
  case False
  let ?ts = "map (\<lambda>u. if task_id u = i then u\<lparr>description := text, updatedAt := n1\<rparr> else u)
               (tasks d)"
  let ?d0 = "d\<lparr>tasks := ?ts, journal := journal d @ [Patched Tasks i]\<rparr>"
  let ?e = "\<lparr>ev_id = fresh_id ?d0, ev_taskId = i, ev_type = Task_description_updated,
             ev_actor = normalizeActor a1,
             ev_payload = empty_payload\<lparr>p_textPreview := Some (take 80 (trim text))\<rparr>,
             ev_createdAt = n1\<rparr>"
  let ?d1 = "d\<lparr>tasks := ?ts, task_events := task_events d @ [?e],
               journal := journal d @ [Patched Tasks i, Inserted Task_events (ev_id ?e)]\<rparr>"
  have first: "updateDescription n1 i text a1 d = Inr ?d1"
    using assms False
    by (simp add: updateDescription_def db_patch_task_existing db_insert_event_def Let_def
          buildPreview_def)
  have "db_get ?d1 i = Some (t\<lparr>description := text, updatedAt := n1\<rparr>)"
    using assms find_map_patch [of "\<lambda>u. u\<lparr>description := text, updatedAt := n1\<rparr>" i i "tasks d"]
    by (simp add: db_get_def)
  then have second: "updateDescription n2 i text a2 ?d1 = Inr ?d1"
    by (simp add: updateDescription_def)
  have "\<exists>e. ?d1 = d\<lparr>tasks := ?ts, task_events := task_events d @ [e],
                     journal := journal d @ [Patched Tasks i, Inserted Task_events (ev_id e)]\<rparr>
          \<and> ev_taskId e = i \<and> ev_type e = Task_description_updated
          \<and> ev_actor e = normalizeActor a1
          \<and> ev_payload e = empty_payload\<lparr>p_textPreview := Some (take 80 (trim text))\<rparr>
          \<and> ev_createdAt e = n1"
    by (intro exI [of _ ?e]) simp
  with first second False show ?thesis
    by (intro exI [of _ ?d1]) simp
qed

theorem updateDescription_twice_witness:
  "db_get (demo_db [demo_task ''A'' (Canonical Backlog) 0 5]) (str ''A'')
     = Some (demo_task ''A'' (Canonical Backlog) 0 5)
   \<and> (\<exists>d1. updateDescription 6 (str ''A'') (str '' note '') None
               (demo_db [demo_task ''A'' (Canonical Backlog) 0 5]) = Inr d1
          \<and> updateDescription 7 (str ''A'') (str '' note '') None d1 = Inr d1
          \<and> map description (tasks d1) = [str '' note '']
          \<and> map updatedAt (tasks d1) = [6]
          \<and> map (p_textPreview \<circ> ev_payload) (task_events d1) = [Some (str ''note'')]
          \<and> length (filter is_patch (journal d1)) = 1)"
proof -
  let ?d = "demo_db [demo_task ''A'' (Canonical Backlog) 0 5]"
  have g: "db_get ?d (str ''A'') = Some (demo_task ''A'' (Canonical Backlog) 0 5)"
    by (simp add: db_get_def demo_db_def demo_task_def str_def)
  have ne: "description (demo_task ''A'' (Canonical Backlog) 0 5) \<noteq> str '' note ''"
    by (simp add: demo_task_def str_def)
  have tr: "take 80 (trim (str '' note '')) = str ''note''"
    by (simp add: trim_def str_def isWhiteSpace_def)
  have t: "tasks ?d = [demo_task ''A'' (Canonical Backlog) 0 5]"
    "task_events ?d = []" "journal ?d = []"
    by (simp_all add: demo_db_def)
  have u: "task_id (demo_task ''A'' (Canonical Backlog) 0 5) = str ''A''"
    by (simp add: demo_task_def)
  from updateDescription_twice [OF g, of 6 "str '' note ''" None 7 None]
  have "\<exists>d1. updateDescription 6 (str ''A'') (str '' note '') None ?d = Inr d1
          \<and> updateDescription 7 (str ''A'') (str '' note '') None d1 = Inr d1
          \<and> map description (tasks d1) = [str '' note '']
          \<and> map updatedAt (tasks d1) = [6]
          \<and> map (p_textPreview \<circ> ev_payload) (task_events d1) = [Some (str ''note'')]
          \<and> length (filter is_patch (journal d1)) = 1"
    by (auto simp: ne tr t u empty_payload_def is_patch_def)
  with g show ?thesis by blast
qed

text \<open>
  With the text the task already stores, the first call is a no-op as well: no patch and
  no event at all.
\<close>

theorem updateDescription_same_text_counterexample:
  "db_get (demo_db [(demo_task ''A'' (Canonical Backlog) 0 5)\<lparr>description := str ''same''\<rparr>]) (str ''A'')
     = Some ((demo_task ''A'' (Canonical Backlog) 0 5)\<lparr>description := str ''same''\<rparr>)
   \<and> updateDescription 6 (str ''A'') (str ''same'') None
        (demo_db [(demo_task ''A'' (Canonical Backlog) 0 5)\<lparr>description := str ''same''\<rparr>])
      = Inr (demo_db [(demo_task ''A'' (Canonical Backlog) 0 5)\<lparr>description := str ''same''\<rparr>])
   \<and> filter is_patch
        (journal (demo_db [(demo_task ''A'' (Canonical Backlog) 0 5)\<lparr>description := str ''same''\<rparr>]))
      = []
   \<and> task_events (demo_db [(demo_task ''A'' (Canonical Backlog) 0 5)\<lparr>description := str ''same''\<rparr>])
      = []"
  by (simp add: updateDescription_def db_get_def demo_db_def demo_task_def str_def)

section \<open>reorder: the column rewrite\<close>

lemma reorder_ids_patch_all:
  "reorder_ids now s k ids d = patch_all now (map (\<lambda>(j, i). (i, j, s)) (enumerate k ids)) d"
  by (induction ids arbitrary: k d) (auto split: sum.splits)

lemma patch_all_append:
  "patch_all now (es1 @ es2) d =
     (case patch_all now es1 d of Inl e \<Rightarrow> Inl e | Inr d1 \<Rightarrow> patch_all now es2 d1)"
  by (induction es1 arbitrary: d) (auto split: sum.splits)

lemma reorder_columns_patch_all:
  "reorder_columns now cs d = patch_all now (patch_entries cs) d"
proof (induction cs arbitrary: d)
  case Nil
  show ?case by (simp add: patch_entries_def)
next
  case (Cons c cs)
  have "patch_entries (c # cs) = column_entries c @ patch_entries cs"
    by (simp add: patch_entries_def)
  then show ?case
    using Cons.IH
    by (simp add: patch_all_append reorder_ids_patch_all column_entries_def split: sum.splits)
qed

lemma task_id_rewritten [simp]: "task_id (rewritten now es t) = task_id t"
  by (simp add: rewritten_def split: option.splits)

lemma rewritten_Nil [simp]: "rewritten now [] t = t"
  by (simp add: rewritten_def)

lemma rewritten_Cons:
  "rewritten now ((i, k, s) # es) t =
     rewritten now es
       (if task_id t = i then t\<lparr>order := int k, status := Canonical s, updatedAt := now\<rparr> else t)"
  by (auto simp: rewritten_def map_add_def split: option.splits)

lemma patch_all_result:
  assumes "patch_all now es d = Inr d'"
  shows "d' = d\<lparr>tasks := map (rewritten now es) (tasks d),
               journal := journal d @ map (\<lambda>e. Patched Tasks (fst e)) es\<rparr>"
  using assms
proof (induction es arbitrary: d)
  case Nil
  then show ?case by simp
next
  case (Cons e es)
  obtain i k s where e: "e = (i, k, s)" by (cases e)
  from Cons.prems obtain d1 where
    d1: "db_patch_task i (\<lambda>t. t\<lparr>order := int k, status := Canonical s, updatedAt := now\<rparr>) d = Inr d1"
    and rest: "patch_all now es d1 = Inr d'"
    by (auto simp: e split: sum.splits)
  from d1 have d1_eq:
    "d1 = d\<lparr>tasks := map (\<lambda>t. if task_id t = i
                               then t\<lparr>order := int k, status := Canonical s, updatedAt := now\<rparr>
                               else t) (tasks d),
            journal := journal d @ [Patched Tasks i]\<rparr>"
    by (auto simp: db_patch_task_def split: if_splits)
  show ?case
    unfolding Cons.IH [OF rest] e
    by (simp add: d1_eq rewritten_Cons comp_def)
qed

lemma map_task_id_patch:
  assumes "\<And>u. task_id (f u) = task_id u"
  shows "map task_id (map (\<lambda>t. if task_id t = i then f t else t) xs) = map task_id xs"
  by (induction xs) (auto simp: assms)

lemma patch_all_succeeds:
  assumes "fst ` set es \<subseteq> task_id ` set (tasks d)"
  shows "\<exists>d'. patch_all now es d = Inr d'"
  using assms
proof (induction es arbitrary: d)
  case Nil
  then show ?case by simp
next
  case (Cons e es)
  obtain i k s where e: "e = (i, k, s)" by (cases e)
  let ?f = "\<lambda>t::task. t\<lparr>order := int k, status := Canonical s, updatedAt := now\<rparr>"
  let ?d1 = "d\<lparr>tasks := map (\<lambda>t. if task_id t = i then ?f t else t) (tasks d),
               journal := journal d @ [Patched Tasks i]\<rparr>"
  from Cons.prems have "i \<in> task_id ` set (tasks d)" by (simp add: e)
  then have p: "db_patch_task i ?f d = Inr ?d1" by (simp add: db_patch_task_def)
  have "map task_id (tasks ?d1) = map task_id (tasks d)"
    using map_task_id_patch [of ?f i "tasks d"] by simp
  from arg_cong [OF this, of set]
  have "task_id ` set (tasks ?d1) = task_id ` set (tasks d)"
    by (simp only: list.set_map)
  with Cons.prems have "fst ` set es \<subseteq> task_id ` set (tasks ?d1)" by (simp add: e)
  from Cons.IH [OF this] show ?case by (simp add: e p)
qed

lemma patch_all_fails:
  assumes "patch_all now es d = Inr d'"
  shows "fst ` set es \<subseteq> task_id ` set (tasks d)"
  using assms
proof (induction es arbitrary: d)
  case Nil
  then show ?case by simp
next
  case (Cons e es)
  obtain i k s where e: "e = (i, k, s)" by (cases e)
  from Cons.prems obtain d1 where
    d1: "db_patch_task i (\<lambda>t. t\<lparr>order := int k, status := Canonical s, updatedAt := now\<rparr>) d = Inr d1"
    and rest: "patch_all now es d1 = Inr d'"
    by (auto simp: e split: sum.splits)
  from d1 have i: "i \<in> task_id ` set (tasks d)"
    and m: "map task_id (tasks d1) = map task_id (tasks d)"
    by (auto simp: db_patch_task_def comp_def if_distrib split: if_splits cong: if_cong)
  from arg_cong [OF m, of set]
  have "task_id ` set (tasks d1) = task_id ` set (tasks d)"
    by (simp only: list.set_map)
  with Cons.IH [OF rest] i show ?case by (simp add: e)
qed

lemma map_fst_entries:
  "map fst (map (\<lambda>(k, i). (i, k, s)) (enumerate n xs)) = xs"
  by (induction xs arbitrary: n) simp_all

lemma map_fst_column_entries: "map fst (column_entries c) = orderedIds c"
  by (simp only: column_entries_def map_fst_entries)

lemma map_fst_patch_entries: "map fst (patch_entries cs) = concat (map orderedIds cs)"
  by (induction cs) (simp_all add: patch_entries_def map_fst_column_entries)

lemma fst_set_patch_entries: "fst ` set (patch_entries cs) = set (concat (map orderedIds cs))"
  using arg_cong [OF map_fst_patch_entries, of set cs] by (simp only: list.set_map)

lemma reorder_columns_result:
  assumes "set (concat (map orderedIds cs)) \<subseteq> task_id ` set (tasks d)"
  shows "reorder_columns now cs d =
     Inr (d\<lparr>tasks := map (rewritten now (patch_entries cs)) (tasks d),
            journal := journal d @ map (\<lambda>e. Patched Tasks (fst e)) (patch_entries cs)\<rparr>)"
proof -
  from assms have "fst ` set (patch_entries cs) \<subseteq> task_id ` set (tasks d)"
    by (simp only: fst_set_patch_entries)
  from patch_all_succeeds [OF this, of now]
  obtain d' where d': "patch_all now (patch_entries cs) d = Inr d'" ..
  from patch_all_result [OF d'] d' show ?thesis
    by (simp only: reorder_columns_patch_all)
qed

lemma reorder_columns_Inr_listed:
  assumes "reorder_columns now cs d = Inr d'"
  shows "set (concat (map orderedIds cs)) \<subseteq> task_id ` set (tasks d)"
  using patch_all_fails [of now "patch_entries cs" d d'] assms
  by (simp only: reorder_columns_patch_all fst_set_patch_entries)

lemma tasks_reorder_events [simp]: "tasks (reorder_events now args d) = tasks d"
  by (simp add: reorder_events_def db_insert_event_def Let_def)

lemma db_get_reorder_events [simp]: "db_get (reorder_events now args d) i = db_get d i"
  by (simp add: db_get_def)

lemma db_get_rewritten:
  "db_get (d\<lparr>tasks := map (rewritten now es) (tasks d), journal := j\<rparr>) i
     = map_option (rewritten now es) (db_get d i)"
proof -
  have "find (\<lambda>t. task_id t = i) (map (rewritten now es) xs)
      = map_option (rewritten now es) (find (\<lambda>t. task_id t = i) xs)" for xs
    by (induction xs) simp_all
  then show ?thesis by (simp add: db_get_def)
qed

lemma map_of_rev_last:
  assumes "i \<notin> fst ` set es2"
  shows "map_of (rev (es1 @ (i, v) # es2)) i = Some v"
proof -
  from assms have "map_of (rev es2) i = None"
    by (simp add: map_of_eq_None_iff)
  then show ?thesis
    by (simp add: map_add_def)
qed

lemma column_entries_split:
  assumes "k < length (orderedIds c)"
  shows "\<exists>es1 es2. column_entries c
           = es1 @ (orderedIds c ! k, k, normalizeLegacyStatus (Some (col_status c))) # es2
         \<and> fst ` set es2 = set (drop (Suc k) (orderedIds c))"
proof -
  let ?ids = "orderedIds c"
  let ?g = "\<lambda>(k, i). (i, k, normalizeLegacyStatus (Some (col_status c)))"
  have ids: "?ids = take k ?ids @ ?ids ! k # drop (Suc k) ?ids"
    using assms by (simp add: id_take_nth_drop)
  have "enumerate 0 ?ids
      = enumerate 0 (take k ?ids) @ (k, ?ids ! k) # enumerate (Suc k) (drop (Suc k) ?ids)"
    using assms by (subst ids) (simp add: enumerate_append_eq min_def)
  then have "column_entries c
      = map ?g (enumerate 0 (take k ?ids)) @ (?ids ! k, k, normalizeLegacyStatus (Some (col_status c)))
          # map ?g (enumerate (Suc k) (drop (Suc k) ?ids))"
    by (simp add: column_entries_def)
  moreover have "fst ` set (map ?g (enumerate (Suc k) (drop (Suc k) ?ids))) = set (drop (Suc k) ?ids)"
    using arg_cong [OF map_fst_entries, of set "normalizeLegacyStatus (Some (col_status c))"
                      "Suc k" "drop (Suc k) ?ids"]
    by (simp only: list.set_map)
  ultimately show ?thesis by blast
qed

lemma patch_entries_split:
  assumes "c < length cs" and "k < length (orderedIds (cs ! c))"
  shows "\<exists>es1 es2. patch_entries cs
           = es1 @ (orderedIds (cs ! c) ! k, k, normalizeLegacyStatus (Some (col_status (cs ! c)))) # es2
         \<and> fst ` set es2 = set (drop (Suc k) (orderedIds (cs ! c)))
                             \<union> set (concat (map orderedIds (drop (Suc c) cs)))"
proof -
  from column_entries_split [OF assms(2)] obtain es1 es2 where
    col: "column_entries (cs ! c)
           = es1 @ (orderedIds (cs ! c) ! k, k, normalizeLegacyStatus (Some (col_status (cs ! c)))) # es2"
    and es2: "fst ` set es2 = set (drop (Suc k) (orderedIds (cs ! c)))"
    by blast
  have "cs = take c cs @ cs ! c # drop (Suc c) cs"
    using assms(1) by (simp add: id_take_nth_drop)
  then have "patch_entries cs
      = patch_entries (take c cs) @ column_entries (cs ! c) @ patch_entries (drop (Suc c) cs)"
    unfolding patch_entries_def by (metis concat.simps(2) concat_append list.simps(9) map_append)
  then have "patch_entries cs
      = (patch_entries (take c cs) @ es1)
        @ (orderedIds (cs ! c) ! k, k, normalizeLegacyStatus (Some (col_status (cs ! c))))
        # (es2 @ patch_entries (drop (Suc c) cs))"
    by (simp add: col)
  moreover have "fst ` set (es2 @ patch_entries (drop (Suc c) cs))
      = set (drop (Suc k) (orderedIds (cs ! c))) \<union> set (concat (map orderedIds (drop (Suc c) cs)))"
    by (simp only: set_append image_Un es2 fst_set_patch_entries)
  ultimately show ?thesis by blast
qed

text \<open>
  Claim C1 (amended). A call of \<open>reorder\<close> whose listed identifiers all name stored tasks
  succeeds, and for every supplied column and every position of its \<open>orderedIds\<close> whose
  identifier is not listed again later (further down the same column or in a later column),
  the task ends with its order equal to that position and its status equal to the column's
  normalised status, whatever its status and order were before.
\<close>

theorem reorder_places_last_listing:
  assumes "set (concat (map orderedIds (columns args))) \<subseteq> task_id ` set (tasks d)"
    and "c < length (columns args)"
    and "k < length (orderedIds (columns args ! c))"
    and "orderedIds (columns args ! c) ! k \<notin> set (drop (Suc k) (orderedIds (columns args ! c)))"
    and "orderedIds (columns args ! c) ! k
           \<notin> set (concat (map orderedIds (drop (Suc c) (columns args))))"
  shows "\<exists>d' t. reorder now args d = Inr d'
           \<and> db_get d' (orderedIds (columns args ! c) ! k) = Some t
           \<and> order t = int k
           \<and> status t = Canonical (normalizeLegacyStatus (Some (col_status (columns args ! c))))
           \<and> updatedAt t = now"
proof -
  let ?i = "orderedIds (columns args ! c) ! k"
  let ?s = "normalizeLegacyStatus (Some (col_status (columns args ! c)))"
  let ?es = "patch_entries (columns args)"
  let ?d1 = "d\<lparr>tasks := map (rewritten now ?es) (tasks d),
               journal := journal d @ map (\<lambda>e. Patched Tasks (fst e)) ?es\<rparr>"
  have run: "reorder now args d = Inr (reorder_events now args ?d1)"
    by (simp add: reorder_def reorder_columns_result [OF assms(1)])
  have "?i \<in> set (concat (map orderedIds (columns args)))"
    using assms(2,3) by (auto intro!: bexI [of _ "columns args ! c"])
  with assms(1) have "?i \<in> task_id ` set (tasks d)" by blast
  then obtain t where t: "db_get d ?i = Some t"
    by (cases "db_get d ?i") (auto simp: db_get_None_iff)
  then have id: "task_id t = ?i" by (simp add: db_get_SomeD)
  from patch_entries_split [OF assms(2,3)] assms(4,5) obtain es1 es2 where
    "?es = es1 @ (?i, k, ?s) # es2" and "?i \<notin> fst ` set es2"
    by auto
  then have "map_of (rev ?es) ?i = Some (k, ?s)"
    using map_of_rev_last [of ?i es2 es1 "(k, ?s)"] by simp
  then have "rewritten now ?es t = t\<lparr>order := int k, status := Canonical ?s, updatedAt := now\<rparr>"
    by (simp add: rewritten_def id)
  with t have "db_get (reorder_events now args ?d1) ?i
      = Some (t\<lparr>order := int k, status := Canonical ?s, updatedAt := now\<rparr>)"
    by (simp add: db_get_rewritten)
  with run show ?thesis by simp
qed

theorem reorder_places_last_listing_witness:
  "set (concat (map orderedIds [\<lparr>col_status = Canonical Done, orderedIds = [str ''B'', str ''A'']\<rparr>]))
     \<subseteq> task_id ` set (tasks (demo_db [demo_task ''A'' (Canonical Backlog) 0 5,
                                        demo_task ''B'' (Canonical In_progress) 0 6]))
   \<and> (\<exists>d' ta tb.
         reorder 9 \<lparr>columns = [\<lparr>col_status = Canonical Done, orderedIds = [str ''B'', str ''A'']\<rparr>],
                    movedTaskId = None, fromStatus = None, toStatus = None, fromIndex = None,
                    toIndex = None, actor = None\<rparr>
           (demo_db [demo_task ''A'' (Canonical Backlog) 0 5,
                     demo_task ''B'' (Canonical In_progress) 0 6]) = Inr d'
       \<and> db_get d' (str ''B'') = Some tb \<and> order tb = 0 \<and> status tb = Canonical Done
       \<and> db_get d' (str ''A'') = Some ta \<and> order ta = 1 \<and> status ta = Canonical Done)"
proof -
  let ?d = "demo_db [demo_task ''A'' (Canonical Backlog) 0 5,
                     demo_task ''B'' (Canonical In_progress) 0 6]"
  let ?args = "\<lparr>columns = [\<lparr>col_status = Canonical Done, orderedIds = [str ''B'', str ''A'']\<rparr>],
                 movedTaskId = None, fromStatus = None, toStatus = None, fromIndex = None,
                 toIndex = None, actor = None\<rparr>"
  have h1: "set (concat (map orderedIds (columns ?args))) \<subseteq> task_id ` set (tasks ?d)"
    by (simp add: demo_db_def demo_task_def)
  have ne: "str ''B'' \<noteq> str ''A''" by (simp add: str_def)
  from reorder_places_last_listing [of ?args ?d 0 0 9, OF h1] ne
  obtain d' tb where b: "reorder 9 ?args ?d = Inr d'" "db_get d' (str ''B'') = Some tb"
    "order tb = 0" "status tb = Canonical Done"
    by auto
  from reorder_places_last_listing [of ?args ?d 0 1 9, OF h1]
  obtain d'' ta where a: "reorder 9 ?args ?d = Inr d''" "db_get d'' (str ''A'') = Some ta"
    "order ta = 1" "status ta = Canonical Done"
    by auto
  from a b have "d'' = d'" by simp
  with a b h1 show ?thesis by auto
qed

theorem reorder_listed_twice_counterexample:
  "(case reorder 9 \<lparr>columns = [\<lparr>col_status = Canonical Backlog, orderedIds = [str ''A'']\<rparr>,
                              \<lparr>col_status = Canonical Done, orderedIds = [str ''B'', str ''A'']\<rparr>],
                    movedTaskId = None, fromStatus = None, toStatus = None, fromIndex = None,
                    toIndex = None, actor = None\<rparr>
           (demo_db [demo_task ''A'' (Canonical Backlog) 0 5,
                     demo_task ''B'' (Canonical In_progress) 0 6]) of
      Inl e \<Rightarrow> False
    | Inr d' \<Rightarrow> map task_id (tasks d') = [str ''A'', str ''B'']
              \<and> map order (tasks d') = [1, 0]
              \<and> map status (tasks d') = [Canonical Done, Canonical Done])"
  by (simp add: reorder_def reorder_events_def truthy_def db_patch_task_def demo_db_def
        demo_task_def str_def)

section \<open>reorder: the events\<close>

lemma reorder_columns_keeps:
  assumes "reorder_columns now cs d = Inr d1"
  shows "task_events d1 = task_events d \<and> messages d1 = messages d \<and> app_state d1 = app_state d"
  using patch_all_result [of now "patch_entries cs" d d1] assms
  by (simp add: reorder_columns_patch_all)

lemma reorder_events_appends:
  "\<exists>evs. task_events (reorder_events now args d) = task_events d @ evs
     \<and> map (\<lambda>e. (ev_type e, ev_taskId e, ev_actor e, ev_payload e, ev_createdAt e)) evs
       = (if truthy (movedTaskId args) \<and> fromIndex args \<noteq> None \<and> toIndex args \<noteq> None
             \<and> fromIndex args \<noteq> toIndex args
          then [(Task_reordered, the (movedTaskId args), normalizeActor (actor args),
                 empty_payload\<lparr>p_fromIndex := fromIndex args, p_toIndex := toIndex args\<rparr>, now)]
          else [])
         @ (if truthy (movedTaskId args) \<and> fromStatus args \<noteq> None \<and> toStatus args \<noteq> None
               \<and> normalizeLegacyStatus (fromStatus args) \<noteq> normalizeLegacyStatus (toStatus args)
            then [(Task_status_changed, the (movedTaskId args), normalizeActor (actor args),
                   empty_payload\<lparr>p_from := Some (normalizeLegacyStatus (fromStatus args)),
                                  p_to := Some (normalizeLegacyStatus (toStatus args))\<rparr>, now)]
            else [])"
  by (rule exI [of _ "drop (length (task_events d)) (task_events (reorder_events now args d))"])
     (auto simp: reorder_events_def db_insert_event_def Let_def)

text \<open>
  Claim C3 (amended). A successful call of \<open>reorder\<close> appends to the event table, in this
  order: one \<open>task_reordered\<close> event carrying \<open>fromIndex\<close> and \<open>toIndex\<close> exactly when
  \<open>movedTaskId\<close> is given (a non-empty identifier) and both indices are given and differ;
  and one \<open>task_status_changed\<close> event carrying the normalised \<open>from\<close> and \<open>to\<close> exactly when
  \<open>movedTaskId\<close> is given and \<open>fromStatus\<close> and \<open>toStatus\<close> are given and normalise to
  different values. It appends nothing else, and the tasks it leaves are those of any call
  with the same columns: the metadata has no part in the placement.
\<close>

theorem reorder_records_events:
  assumes "reorder now args d = Inr d'"
  shows "(\<exists>evs. task_events d' = task_events d @ evs
          \<and> map (\<lambda>e. (ev_type e, ev_taskId e, ev_actor e, ev_payload e, ev_createdAt e)) evs
            = (if truthy (movedTaskId args) \<and> fromIndex args \<noteq> None \<and> toIndex args \<noteq> None
                  \<and> fromIndex args \<noteq> toIndex args
               then [(Task_reordered, the (movedTaskId args), normalizeActor (actor args),
                      empty_payload\<lparr>p_fromIndex := fromIndex args, p_toIndex := toIndex args\<rparr>, now)]
               else [])
              @ (if truthy (movedTaskId args) \<and> fromStatus args \<noteq> None \<and> toStatus args \<noteq> None
                    \<and> normalizeLegacyStatus (fromStatus args) \<noteq> normalizeLegacyStatus (toStatus args)
                 then [(Task_status_changed, the (movedTaskId args), normalizeActor (actor args),
                        empty_payload\<lparr>p_from := Some (normalizeLegacyStatus (fromStatus args)),
                                       p_to := Some (normalizeLegacyStatus (toStatus args))\<rparr>, now)]
                 else []))
         \<and> (\<forall>args'. columns args' = columns args \<longrightarrow>
                (\<exists>d''. reorder now args' d = Inr d'' \<and> tasks d'' = tasks d'))"
proof -
  from assms obtain d1 where d1: "reorder_columns now (columns args) d = Inr d1"
    and d': "d' = reorder_events now args d1"
    by (auto simp: reorder_def split: sum.splits)
  have "task_events d1 = task_events d"
    using reorder_columns_keeps [OF d1] by simp
  with reorder_events_appends [of now args d1] d'
  have events: "\<exists>evs. task_events d' = task_events d @ evs
          \<and> map (\<lambda>e. (ev_type e, ev_taskId e, ev_actor e, ev_payload e, ev_createdAt e)) evs
            = (if truthy (movedTaskId args) \<and> fromIndex args \<noteq> None \<and> toIndex args \<noteq> None
                  \<and> fromIndex args \<noteq> toIndex args
               then [(Task_reordered, the (movedTaskId args), normalizeActor (actor args),
                      empty_payload\<lparr>p_fromIndex := fromIndex args, p_toIndex := toIndex args\<rparr>, now)]
               else [])
              @ (if truthy (movedTaskId args) \<and> fromStatus args \<noteq> None \<and> toStatus args \<noteq> None
                    \<and> normalizeLegacyStatus (fromStatus args) \<noteq> normalizeLegacyStatus (toStatus args)
                 then [(Task_status_changed, the (movedTaskId args), normalizeActor (actor args),
                        empty_payload\<lparr>p_from := Some (normalizeLegacyStatus (fromStatus args)),
                                       p_to := Some (normalizeLegacyStatus (toStatus args))\<rparr>, now)]
                 else [])"
    by simp
  have "\<exists>d''. reorder now args' d = Inr d'' \<and> tasks d'' = tasks d'"
    if "columns args' = columns args" for args'
    using that d1 d' by (simp add: reorder_def)
  with events show ?thesis by blast
qed

theorem reorder_records_events_witness:
  "\<exists>d'. reorder 9 \<lparr>columns = [\<lparr>col_status = Canonical Backlog, orderedIds = []\<rparr>,
                              \<lparr>col_status = Canonical Done, orderedIds = [str ''B'', str ''A'']\<rparr>],
                   movedTaskId = Some (str ''A''), fromStatus = Some Active,
                   toStatus = Some Completed, fromIndex = Some 0, toIndex = Some 1,
                   actor = Some (str ''demo-user'')\<rparr>
          (demo_db [demo_task ''A'' (Canonical Backlog) 0 5, demo_task ''B'' (Canonical Done) 0 6])
        = Inr d'
      \<and> map ev_type (task_events d') = [Task_reordered, Task_status_changed]
      \<and> map ev_taskId (task_events d') = [str ''A'', str ''A'']
      \<and> map (p_fromIndex \<circ> ev_payload) (task_events d') = [Some 0, None]
      \<and> map (p_toIndex \<circ> ev_payload) (task_events d') = [Some 1, None]
      \<and> map (p_from \<circ> ev_payload) (task_events d') = [None, Some Backlog]
      \<and> map (p_to \<circ> ev_payload) (task_events d') = [None, Some Done]"
proof -
  let ?args = "\<lparr>columns = [\<lparr>col_status = Canonical Backlog, orderedIds = []\<rparr>,
                              \<lparr>col_status = Canonical Done, orderedIds = [str ''B'', str ''A'']\<rparr>],
                 movedTaskId = Some (str ''A''), fromStatus = Some Active,
                 toStatus = Some Completed, fromIndex = Some 0, toIndex = Some 1,
                 actor = Some (str ''demo-user'')\<rparr>"
  let ?d = "demo_db [demo_task ''A'' (Canonical Backlog) 0 5, demo_task ''B'' (Canonical Done) 0 6]"
  have "set (concat (map orderedIds (columns ?args))) \<subseteq> task_id ` set (tasks ?d)"
    by (simp add: demo_db_def demo_task_def)
  from reorder_columns_result [OF this, of 9]
  obtain d' where run: "reorder 9 ?args ?d = Inr d'"
    by (simp add: reorder_def)
  have ev: "task_events ?d = []" by (simp add: demo_db_def)
  have tr: "truthy (Some (str ''A''))" by (simp add: truthy_def str_def)
  from reorder_records_events [OF run] obtain evs where
    "task_events d' = evs"
    "map (\<lambda>e. (ev_type e, ev_taskId e, ev_actor e, ev_payload e, ev_createdAt e)) evs
       = [(Task_reordered, str ''A'', normalizeActor (Some (str ''demo-user'')),
           empty_payload\<lparr>p_fromIndex := Some 0, p_toIndex := Some 1\<rparr>, 9),
          (Task_status_changed, str ''A'', normalizeActor (Some (str ''demo-user'')),
           empty_payload\<lparr>p_from := Some Backlog, p_to := Some Done\<rparr>, 9)]"
    by (auto simp: ev tr)
  then have props: "map ev_type (task_events d') = [Task_reordered, Task_status_changed]
      \<and> map ev_taskId (task_events d') = [str ''A'', str ''A'']
      \<and> map (p_fromIndex \<circ> ev_payload) (task_events d') = [Some 0, None]
      \<and> map (p_toIndex \<circ> ev_payload) (task_events d') = [Some 1, None]
      \<and> map (p_from \<circ> ev_payload) (task_events d') = [None, Some Backlog]
      \<and> map (p_to \<circ> ev_payload) (task_events d') = [None, Some Done]"
    by (auto simp: empty_payload_def)
  show ?thesis
    by (rule exI [of _ d'], rule conjI [OF run props])
qed

text \<open>
  Without \<open>movedTaskId\<close>, a call that gives \<open>fromStatus\<close> and \<open>toStatus\<close> of different
  normal forms records no event at all.
\<close>

theorem reorder_status_event_needs_moved_counterexample:
  "normalizeLegacyStatus (Some (Canonical Backlog)) \<noteq> normalizeLegacyStatus (Some (Canonical Done))
   \<and> reorder 9 \<lparr>columns = [], movedTaskId = None, fromStatus = Some (Canonical Backlog),
                 toStatus = Some (Canonical Done), fromIndex = None, toIndex = None, actor = None\<rparr>
        (demo_db [demo_task ''A'' (Canonical Backlog) 0 5])
      = Inr (demo_db [demo_task ''A'' (Canonical Backlog) 0 5])
   \<and> task_events (demo_db [demo_task ''A'' (Canonical Backlog) 0 5]) = []"
  by (simp add: reorder_def reorder_events_def truthy_def demo_db_def)

section \<open>reorder: the order values of a column\<close>

lemma contiguous_from_zeroI:
  assumes "mset os = mset (map int [0..<n])"
  shows "contiguous_from_zero os"
proof -
  from assms have len: "length os = n"
    by (metis length_map length_upt mset_eq_length minus_nat.diff_0)
  have "sorted (map int [0..<n])"
    by (simp add: sorted_map sorted_wrt_iff_nth_less)
  with assms have "sort os = map int [0..<n]"
    by (simp add: properties_for_sort)
  with len show ?thesis by (simp add: contiguous_from_zero_def)
qed

lemma in_column_entries:
  "(i, k, s) \<in> set (column_entries c)
     \<longleftrightarrow> k < length (orderedIds c) \<and> orderedIds c ! k = i
         \<and> s = normalizeLegacyStatus (Some (col_status c))"
proof -
  have "(i, k, s) \<in> set (column_entries c)
      \<longleftrightarrow> (k, i) \<in> set (enumerate 0 (orderedIds c))
          \<and> s = normalizeLegacyStatus (Some (col_status c))"
    by (auto simp: column_entries_def)
  then show ?thesis
    by (auto simp: in_set_enumerate_eq)
qed

lemma in_patch_entries:
  "(i, k, s) \<in> set (patch_entries cs)
     \<longleftrightarrow> (\<exists>c \<in> set cs. k < length (orderedIds c) \<and> orderedIds c ! k = i
            \<and> s = normalizeLegacyStatus (Some (col_status c)))"
  by (simp add: patch_entries_def in_column_entries)

lemma map_of_rev_distinct:
  assumes "distinct (map fst es)"
  shows "map_of (rev es) i = Some v \<longleftrightarrow> (i, v) \<in> set es"
proof -
  from assms have "distinct (map fst (rev es))"
    by (simp add: rev_map [symmetric])
  from map_of_eq_Some_iff [OF this, of i v] show ?thesis by simp
qed

lemma distinct_same_set_mset:
  assumes "distinct xs" and "distinct ys" and "set xs = set ys"
  shows "mset xs = mset ys"
  using assms by (simp add: set_eq_iff_mset_eq_distinct)

text \<open>
  Claim C2 (amended). Let the stored task identifiers be pairwise distinct, and let a call
  of \<open>reorder\<close> list only stored tasks, list no identifier twice, give no two columns of
  the same normalised status, and leave unlisted only tasks whose stored status is none of
  the supplied columns' normalised statuses. Then the call succeeds, and for every supplied
  column the tasks having its normalised status afterwards are exactly the listed ones and
  their order values are unique and contiguous from 0 upward.
\<close>

theorem reorder_full_columns_contiguous:
  assumes ids_distinct: "distinct (map task_id (tasks d))"
    and listed_exist: "set (concat (map orderedIds (columns args))) \<subseteq> task_id ` set (tasks d)"
    and listed_once: "distinct (concat (map orderedIds (columns args)))"
    and statuses_distinct:
      "distinct (map (\<lambda>c. normalizeLegacyStatus (Some (col_status c))) (columns args))"
    and unlisted_elsewhere:
      "\<forall>t \<in> set (tasks d). task_id t \<notin> set (concat (map orderedIds (columns args))) \<longrightarrow>
         (\<forall>c \<in> set (columns args). status t \<noteq> Canonical (normalizeLegacyStatus (Some (col_status c))))"
    and c: "c \<in> set (columns args)"
  shows "\<exists>d'. reorder now args d = Inr d'
           \<and> mset (map task_id (column_of d' (normalizeLegacyStatus (Some (col_status c)))))
               = mset (orderedIds c)
           \<and> contiguous_from_zero
               (map order (column_of d' (normalizeLegacyStatus (Some (col_status c)))))"
proof -
  let ?cs = "columns args"
  let ?es = "patch_entries ?cs"
  let ?R = "rewritten now ?es"
  let ?norm = "\<lambda>c. normalizeLegacyStatus (Some (col_status c))"
  let ?s = "?norm c"
  let ?ids = "orderedIds c"
  let ?d1 = "d\<lparr>tasks := map ?R (tasks d),
               journal := journal d @ map (\<lambda>e. Patched Tasks (fst e)) ?es\<rparr>"
  let ?d' = "reorder_events now args ?d1"
  let ?L = "filter (\<lambda>t. task_id t \<in> set ?ids) (tasks d)"
  define g where "g i = (case map_of (rev ?es) i of None \<Rightarrow> 0 | Some (k, s') \<Rightarrow> int k)" for i
  have run: "reorder now args d = Inr ?d'"
    by (simp add: reorder_def reorder_columns_result [OF listed_exist])
  have tasks': "tasks ?d' = map ?R (tasks d)"
    by simp
  have es_distinct: "distinct (map fst ?es)"
    using listed_once by (simp only: map_fst_patch_entries)
  have lookup: "map_of (rev ?es) i = Some (k, s')
      \<longleftrightarrow> (\<exists>c' \<in> set ?cs. k < length (orderedIds c') \<and> orderedIds c' ! k = i \<and> s' = ?norm c')"
    for i k s'
    by (simp only: map_of_rev_distinct [OF es_distinct] in_patch_entries)
  have none: "map_of (rev ?es) i = None \<longleftrightarrow> i \<notin> set (concat (map orderedIds ?cs))" for i
    by (simp add: map_of_eq_None_iff fst_set_patch_entries del: set_concat)
  have inj: "c' = c" if "c' \<in> set ?cs" and "?norm c' = ?norm c" for c'
    using statuses_distinct that c by (auto simp: distinct_map dest: inj_onD)
  have ids_c_distinct: "distinct ?ids"
    using listed_once c by (auto simp: distinct_concat_iff)
  have at: "map_of (rev ?es) (?ids ! k) = Some (k, ?s)" if "k < length ?ids" for k
    using that c by (auto simp: lookup)
  have status_iff: "status (?R t) = Canonical ?s \<longleftrightarrow> task_id t \<in> set ?ids"
    if t: "t \<in> set (tasks d)" for t
  proof (cases "map_of (rev ?es) (task_id t)")
    case None
    with none [of "task_id t"] have unl: "task_id t \<notin> set (concat (map orderedIds ?cs))"
      by blast
    with unlisted_elsewhere t c have "status t \<noteq> Canonical ?s" by blast
    moreover from unl c have "task_id t \<notin> set ?ids" by auto
    ultimately show ?thesis using None by (simp add: rewritten_def)
  next
    case (Some v)
    obtain k s' where v: "v = (k, s')" by (cases v)
    from Some [unfolded v lookup] obtain c' where c': "c' \<in> set ?cs"
      "k < length (orderedIds c')" "orderedIds c' ! k = task_id t" "s' = ?norm c'"
      by blast
    have st: "status (?R t) = Canonical s'"
      using Some by (simp add: rewritten_def v)
    show ?thesis
    proof
      assume "status (?R t) = Canonical ?s"
      with st c'(4) have "?norm c' = ?norm c" by simp
      from inj [OF c'(1) this] c'(2,3) show "task_id t \<in> set ?ids"
        by (metis nth_mem)
    next
      assume "task_id t \<in> set ?ids"
      then obtain j where j: "j < length ?ids" "?ids ! j = task_id t"
        by (auto simp: in_set_conv_nth)
      from at [OF j(1)] Some have "s' = ?s" by (simp add: j(2) v)
      with st show "status (?R t) = Canonical ?s" by simp
    qed
  qed
  have col: "column_of ?d' ?s = map ?R ?L"
  proof -
    have "filter (\<lambda>t. status t = Canonical ?s) (map ?R (tasks d))
        = map ?R (filter (\<lambda>t. status (?R t) = Canonical ?s) (tasks d))"
      by (simp add: filter_map comp_def)
    also have "filter (\<lambda>t. status (?R t) = Canonical ?s) (tasks d) = ?L"
      by (rule filter_cong [OF refl]) (rule status_iff)
    finally show ?thesis
      by (simp only: column_of_def tasks')
  qed
  have order_g: "order (?R t) = g (task_id t)" if "t \<in> set ?L" for t
  proof -
    from that obtain j where j: "j < length ?ids" "?ids ! j = task_id t"
      by (auto simp: in_set_conv_nth)
    from at [OF j(1)] show ?thesis
      by (simp add: rewritten_def g_def j(2))
  qed
  have ids_L: "mset (map task_id ?L) = mset ?ids"
  proof (rule distinct_same_set_mset)
    have "map task_id ?L = filter (\<lambda>i. i \<in> set ?ids) (map task_id (tasks d))"
      by (simp add: filter_map comp_def)
    with ids_distinct show "distinct (map task_id ?L)"
      by simp
    show "distinct ?ids" by (rule ids_c_distinct)
    have "set ?ids \<subseteq> task_id ` set (tasks d)"
      using listed_exist c by auto
    then show "set (map task_id ?L) = set ?ids"
      by auto
  qed
  have "map order (column_of ?d' ?s) = map g (map task_id ?L)"
    using order_g by (simp add: col)
  then have "mset (map order (column_of ?d' ?s)) = image_mset g (mset (map task_id ?L))"
    by (simp only: mset_map)
  also have "\<dots> = mset (map g ?ids)"
    using arg_cong [OF ids_L, of "image_mset g"] by (simp only: mset_map)
  also have "map g ?ids = map int [0..<length ?ids]"
    by (rule nth_equalityI) (simp_all add: g_def at)
  finally have orders: "contiguous_from_zero (map order (column_of ?d' ?s))"
    by (rule contiguous_from_zeroI)
  have "map task_id (column_of ?d' ?s) = map task_id ?L"
    by (simp add: col)
  with ids_L have "mset (map task_id (column_of ?d' ?s)) = mset ?ids"
    by simp
  with run orders show ?thesis by blast
qed

theorem reorder_full_columns_contiguous_witness:
  "distinct (map task_id (tasks (demo_db [demo_task ''A'' (Canonical Backlog) 7 5,
                                           demo_task ''B'' (Canonical Backlog) 3 6,
                                           demo_task ''C'' (Canonical Done) 0 7])))
   \<and> (\<exists>d'. reorder 9 \<lparr>columns = [\<lparr>col_status = Canonical Backlog, orderedIds = [str ''B'']\<rparr>,
                                   \<lparr>col_status = Completed, orderedIds = [str ''C'', str ''A'']\<rparr>],
                        movedTaskId = Some (str ''A''), fromStatus = Some (Canonical Backlog),
                        toStatus = Some (Canonical Done), fromIndex = Some 0, toIndex = Some 1,
                        actor = None\<rparr>
               (demo_db [demo_task ''A'' (Canonical Backlog) 7 5,
                         demo_task ''B'' (Canonical Backlog) 3 6,
                         demo_task ''C'' (Canonical Done) 0 7]) = Inr d'
          \<and> mset (map task_id (column_of d' Done)) = mset [str ''C'', str ''A'']
          \<and> contiguous_from_zero (map order (column_of d' Done)))"
proof -
  let ?d = "demo_db [demo_task ''A'' (Canonical Backlog) 7 5,
                     demo_task ''B'' (Canonical Backlog) 3 6,
                     demo_task ''C'' (Canonical Done) 0 7]"
  let ?c = "\<lparr>col_status = Completed, orderedIds = [str ''C'', str ''A'']\<rparr>"
  let ?args = "\<lparr>columns = [\<lparr>col_status = Canonical Backlog, orderedIds = [str ''B'']\<rparr>, ?c],
                 movedTaskId = Some (str ''A''), fromStatus = Some (Canonical Backlog),
                 toStatus = Some (Canonical Done), fromIndex = Some 0, toIndex = Some 1,
                 actor = None\<rparr>"
  have h1: "distinct (map task_id (tasks ?d))"
    by (simp add: demo_db_def demo_task_def str_def)
  have h2: "set (concat (map orderedIds (columns ?args))) \<subseteq> task_id ` set (tasks ?d)"
    by (simp add: demo_db_def demo_task_def)
  have h3: "distinct (concat (map orderedIds (columns ?args)))"
    by (simp add: str_def)
  have h4: "distinct (map (\<lambda>c. normalizeLegacyStatus (Some (col_status c))) (columns ?args))"
    by simp
  have h5: "\<forall>t \<in> set (tasks ?d). task_id t \<notin> set (concat (map orderedIds (columns ?args))) \<longrightarrow>
         (\<forall>c \<in> set (columns ?args). status t \<noteq> Canonical (normalizeLegacyStatus (Some (col_status c))))"
    by (simp add: demo_db_def demo_task_def)
  have h6: "?c \<in> set (columns ?args)"
    by simp
  from reorder_full_columns_contiguous [OF h1 h2 h3 h4 h5 h6, of 9]
  have "\<exists>d'. reorder 9 ?args ?d = Inr d'
          \<and> mset (map task_id (column_of d' Done)) = mset [str ''C'', str ''A'']
          \<and> contiguous_from_zero (map order (column_of d' Done))"
    by simp
  with h1 show ?thesis by (rule conjI)
qed

text \<open>
  A call that lists only one of the two backlog tasks leaves both with order 0.
\<close>

theorem reorder_partial_column_counterexample:
  "(case reorder 9 \<lparr>columns = [\<lparr>col_status = Canonical Backlog, orderedIds = [str ''B'']\<rparr>],
                    movedTaskId = None, fromStatus = None, toStatus = None, fromIndex = None,
                    toIndex = None, actor = None\<rparr>
           (demo_db [demo_task ''A'' (Canonical Backlog) 0 5,
                     demo_task ''B'' (Canonical Backlog) 1 6]) of
      Inl e \<Rightarrow> False
    | Inr d' \<Rightarrow> map task_id (column_of d' Backlog) = [str ''A'', str ''B'']
              \<and> map order (column_of d' Backlog) = [0, 0]
              \<and> \<not> contiguous_from_zero (map order (column_of d' Backlog)))"
  by (simp add: reorder_def reorder_events_def truthy_def db_patch_task_def demo_db_def
        demo_task_def str_def column_of_def contiguous_from_zero_def upt_rec)

section \<open>The actor of the recorded events\<close>

lemma dropWhile_id_iff: "dropWhile P xs = xs \<longleftrightarrow> xs = [] \<or> \<not> P (hd xs)"
  by (cases xs) (auto simp: dropWhile_eq_Cons_conv)

lemma trim_idem: "trim (trim s) = trim s"
proof -
  let ?W = isWhiteSpace
  let ?a = "dropWhile ?W s"
  let ?b = "dropWhile ?W (rev ?a)"
  have a: "?a = [] \<or> \<not> ?W (hd ?a)"
    by (metis hd_dropWhile)
  have b: "?b = [] \<or> \<not> ?W (hd ?b)"
    by (metis hd_dropWhile)
  have "rev ?a = takeWhile ?W (rev ?a) @ ?b"
    by simp
  then have eq: "?a = rev ?b @ rev (takeWhile ?W (rev ?a))"
    by (metis rev_append rev_rev_ident)
  have "rev ?b = [] \<or> \<not> ?W (hd (rev ?b))"
  proof (cases "rev ?b = []")
    case True
    then show ?thesis ..
  next
    case False
    with eq have "?a \<noteq> []" and "hd (rev ?b) = hd ?a"
      by (metis append_is_Nil_conv, metis hd_append2)
    with a show ?thesis by metis
  qed
  then have 1: "dropWhile ?W (rev ?b) = rev ?b"
    by (simp only: dropWhile_id_iff)
  from b have 2: "dropWhile ?W ?b = ?b"
    by (simp only: dropWhile_id_iff)
  show ?thesis
    unfolding trim_def 1 rev_rev_ident 2 ..
qed

lemma normalizeActor_trim: "normalizeActor (Some (trim a)) = normalizeActor (Some a)"
  by (simp add: normalizeActor_def trim_idem)

lemma demo_user_not_anonymous: "str ''demo-user'' \<noteq> str ''anonymous''"
  by (simp add: str_def)

lemma normalizeActor_cases:
  "(normalizeActor a = str ''demo-user''
      \<longleftrightarrow> (case a of None \<Rightarrow> False | Some x \<Rightarrow> trim x = str ''demo-user''))
   \<and> (normalizeActor a = str ''anonymous''
      \<longleftrightarrow> (case a of None \<Rightarrow> True | Some x \<Rightarrow> trim x \<noteq> str ''demo-user''))"
proof (cases a)
  case None
  have "[] \<noteq> str ''demo-user''" by (simp add: str_def)
  with None show ?thesis
    using demo_user_not_anonymous by (simp add: normalizeActor_def)
next
  case (Some x)
  then show ?thesis
    using demo_user_not_anonymous by (auto simp: normalizeActor_def)
qed

lemma create_actor:
  assumes "create now ti de st ord a d = Inr (d', r)"
  shows "\<forall>e \<in> set (new_events d d'). ev_actor e = normalizeActor a"
  using assms
  by (auto simp: create_def Let_def db_insert_task_def db_insert_event_def new_events_def
        split: if_splits)

lemma setStatus_actor:
  assumes "setStatus now i s a d = Inr (d', r)"
  shows "\<forall>e \<in> set (new_events d d'). ev_actor e = normalizeActor a"
  using assms
  by (auto simp: setStatus_def Let_def db_patch_task_def db_insert_event_def new_events_def
        split: if_splits option.splits)

lemma cycleStatus_actor:
  assumes "cycleStatus now i a d = Inr (d', r)"
  shows "\<forall>e \<in> set (new_events d d'). ev_actor e = normalizeActor a"
  using assms
  by (auto simp: cycleStatus_def Let_def db_patch_task_def db_insert_event_def new_events_def
        split: if_splits option.splits)

lemma updateDescription_actor:
  assumes "updateDescription now i de a d = Inr d'"
  shows "\<forall>e \<in> set (new_events d d'). ev_actor e = normalizeActor a"
  using assms
  by (auto simp: updateDescription_def Let_def db_patch_task_def db_insert_event_def new_events_def
        split: if_splits option.splits)

lemma reorder_actor:
  assumes "reorder now args d = Inr d'"
  shows "\<forall>e \<in> set (new_events d d'). ev_actor e = normalizeActor (actor args)"
proof -
  from assms obtain d1 where d1: "reorder_columns now (columns args) d = Inr d1"
    and d': "d' = reorder_events now args d1"
    by (auto simp: reorder_def split: sum.splits)
  have "task_events d1 = task_events d"
    using reorder_columns_keeps [OF d1] by simp
  then show ?thesis
    by (auto simp: d' new_events_def reorder_events_def db_insert_event_def Let_def)
qed

lemma send_actor:
  assumes "send now tid tx au d = (d', Some m)"
  shows "(\<exists>msg. messages d' = messages d @ [msg] \<and> msg_id msg = m \<and> msg_author msg = trim au
            \<and> msg_text msg = trim tx)
       \<and> (\<exists>e. new_events d d' = [e] \<and> ev_type e = Message_sent
               \<and> ev_actor e = normalizeActor (Some au))"
  using assms
  by (auto simp: send_def Let_def db_insert_message_def db_insert_event_def new_events_def
        normalizeActor_trim split: if_splits)

lemma create_records_one:
  assumes "create now ti de st ord a d = Inr (d', Some t)"
  shows "\<exists>e. new_events d d' = [e] \<and> ev_type e = Task_created \<and> ev_taskId e = t
            \<and> ev_actor e = normalizeActor a"
  using assms
  by (auto simp: create_def Let_def db_insert_task_def db_insert_event_def new_events_def
        split: if_splits)

text \<open>
  Claim C7 (amended). Every event that \<open>create\<close>, \<open>setStatus\<close>, \<open>cycleStatus\<close>,
  \<open>updateDescription\<close> and \<open>reorder\<close> record carries \<open>normalizeActor\<close> of the supplied
  actor, and the one event of \<open>send\<close> carries \<open>normalizeActor\<close> of the author; this is
  "demo-user" exactly when the supplied string, with surrounding white space trimmed, is
  "demo-user", and "anonymous" for every other input, an absent one included. The message
  \<open>send\<close> stores has the trimmed author itself as its author.
\<close>

theorem event_actor_normalized:
  "(create now ti de st ord a d = Inr (d', Some t) \<longrightarrow>
      (\<exists>e. new_events d d' = [e] \<and> ev_type e = Task_created \<and> ev_actor e = normalizeActor a))
   \<and> (setStatus now i s a d = Inr (d', r) \<longrightarrow>
        (\<forall>e \<in> set (new_events d d'). ev_actor e = normalizeActor a))
   \<and> (cycleStatus now i a d = Inr (d', r) \<longrightarrow>
        (\<forall>e \<in> set (new_events d d'). ev_actor e = normalizeActor a))
   \<and> (updateDescription now i de' a d = Inr d' \<longrightarrow>
        (\<forall>e \<in> set (new_events d d'). ev_actor e = normalizeActor a))
   \<and> (reorder now args d = Inr d' \<longrightarrow>
        (\<forall>e \<in> set (new_events d d'). ev_actor e = normalizeActor (actor args)))
   \<and> (send now tid tx au d = (d', Some m) \<longrightarrow>
        (\<exists>msg. messages d' = messages d @ [msg] \<and> msg_author msg = trim au)
        \<and> (\<exists>e. new_events d d' = [e] \<and> ev_type e = Message_sent
                \<and> ev_actor e = normalizeActor (Some au)))
   \<and> (normalizeActor a = str ''demo-user''
        \<longleftrightarrow> (case a of None \<Rightarrow> False | Some x \<Rightarrow> trim x = str ''demo-user''))
   \<and> (normalizeActor a = str ''anonymous''
        \<longleftrightarrow> (case a of None \<Rightarrow> True | Some x \<Rightarrow> trim x \<noteq> str ''demo-user''))"
proof -
  have "create now ti de st ord a d = Inr (d', Some t) \<longrightarrow>
      (\<exists>e. new_events d d' = [e] \<and> ev_type e = Task_created \<and> ev_actor e = normalizeActor a)"
    using create_records_one [of now ti de st ord a d d' t] by blast
  moreover have "send now tid tx au d = (d', Some m) \<longrightarrow>
        (\<exists>msg. messages d' = messages d @ [msg] \<and> msg_author msg = trim au)
        \<and> (\<exists>e. new_events d d' = [e] \<and> ev_type e = Message_sent
                \<and> ev_actor e = normalizeActor (Some au))"
    using send_actor [of now tid tx au d d' m] by blast
  ultimately show ?thesis
    using setStatus_actor [of now i s a d d' r] cycleStatus_actor [of now i a d d' r]
      updateDescription_actor [of now i de' a d d'] reorder_actor [of now args d d']
      normalizeActor_cases [of a]
    by blast
qed

theorem event_actor_normalized_witness:
  "\<exists>d1 t d2 m.
       create 1 (str ''Buy milk'') None None None (Some (str ''demo-user'')) (demo_db [])
         = Inr (d1, Some t)
     \<and> map ev_actor (new_events (demo_db []) d1) = [str ''demo-user'']
     \<and> send 2 t (str ''hi'') (str ''Bob'') d1 = (d2, Some m)
     \<and> map msg_author (messages d2) = [str ''Bob'']
     \<and> map ev_actor (new_events d1 d2) = [str ''anonymous'']"
proof -
  have t1: "trim (str ''Buy milk'') \<noteq> []" "trim (str ''hi'') \<noteq> []"
    "trim (str ''Bob'') = str ''Bob''" "str ''Bob'' \<noteq> []"
    "trim (str ''demo-user'') = str ''demo-user''" "str ''Bob'' \<noteq> str ''demo-user''"
    by (simp_all add: trim_def str_def isWhiteSpace_def)
  obtain d1 t where c: "create 1 (str ''Buy milk'') None None None (Some (str ''demo-user''))
      (demo_db []) = Inr (d1, Some t)" and m1: "messages d1 = []"
    by (simp add: create_def Let_def t1 split_def db_insert_event_def db_insert_task_def demo_db_def)
  obtain d2 m where s: "send 2 t (str ''hi'') (str ''Bob'') d1 = (d2, Some m)"
    by (simp add: send_def Let_def t1 split_def)
  have n1: "normalizeActor (Some (str ''demo-user'')) = str ''demo-user''"
    and n2: "normalizeActor (Some (str ''Bob'')) = str ''anonymous''"
    by (simp_all add: normalizeActor_def t1)
  from event_actor_normalized [THEN conjunct1, THEN mp, OF c] n1
  have a: "map ev_actor (new_events (demo_db []) d1) = [str ''demo-user'']"
    by auto
  from event_actor_normalized [THEN conjunct2, THEN conjunct2, THEN conjunct2, THEN conjunct2,
      THEN conjunct2, THEN conjunct1, THEN mp, OF s] n2 m1 t1
  have b: "map msg_author (messages d2) = [str ''Bob'']
     \<and> map ev_actor (new_events d1 d2) = [str ''anonymous'']"
    by auto
  show ?thesis
    by (intro exI [of _ d1] exI [of _ t] exI [of _ d2] exI [of _ m] conjI c a s)
       (simp_all add: b)
qed

text \<open>
  An actor that is not the literal "demo-user" (it starts with a space) is recorded as
  "demo-user".
\<close>

theorem trimmed_actor_counterexample:
  "str '' demo-user'' \<noteq> str ''demo-user''
   \<and> (case create 1 (str ''Buy milk'') None None None (Some (str '' demo-user'')) (demo_db []) of
         Inl e \<Rightarrow> False
       | Inr (d', r) \<Rightarrow> map ev_actor (task_events d') = [str ''demo-user''])"
  by (simp add: create_def Let_def split_def db_insert_event_def db_insert_task_def demo_db_def
        normalizeActor_def trim_def str_def isWhiteSpace_def)

section \<open>The client reducer: reorder\<close>

lemma reorder_listed_eq:
  "reorder_listed m ids nextTasks used
     = (nextTasks @ List.map_filter m ids, used \<union> {i \<in> set ids. m i \<noteq> None})"
  by (induction ids arbitrary: nextTasks used) (auto split: option.splits)

lemma taskMap_Some_iff:
  assumes "distinct (map ct_id ts)"
  shows "map_of (rev (map (\<lambda>task. (ct_id task, task)) ts)) i = Some t
           \<longleftrightarrow> t \<in> set ts \<and> ct_id t = i"
proof -
  have "map fst (rev (map (\<lambda>task. (ct_id task, task)) ts)) = rev (map ct_id ts)"
    by (simp add: rev_map comp_def)
  with assms have "distinct (map fst (rev (map (\<lambda>task. (ct_id task, task)) ts)))"
    by simp
  from map_of_eq_Some_iff [OF this, of i t] show ?thesis by auto
qed

lemma taskMap_None_iff:
  "map_of (rev (map (\<lambda>task. (ct_id task, task)) ts)) i = None \<longleftrightarrow> i \<notin> ct_id ` set ts"
  by (simp add: map_of_eq_None_iff image_image)

lemma set_map_filter: "set (List.map_filter m ids) = {t. \<exists>i \<in> set ids. m i = Some t}"
  by (induction ids) (auto split: option.splits)

lemma distinct_map_filter:
  assumes "distinct ids" and "\<And>i j t. m i = Some t \<Longrightarrow> m j = Some t \<Longrightarrow> i = j"
  shows "distinct (List.map_filter m ids)"
  using assms(1)
proof (induction ids)
  case Nil
  show ?case by simp
next
  case (Cons i ids)
  show ?case
  proof (cases "m i")
    case None
    with Cons show ?thesis by simp
  next
    case (Some t)
    have "t \<notin> set (List.map_filter m ids)"
    proof
      assume "t \<in> set (List.map_filter m ids)"
      then obtain j where "j \<in> set ids" "m j = Some t"
        by (auto simp: set_map_filter)
      with assms(2) [OF Some] Cons.prems show False by auto
    qed
    with Cons Some show ?thesis by simp
  qed
qed

lemma map_ct_id_map_filter:
  assumes "\<And>i t. m i = Some t \<Longrightarrow> ct_id t = i"
  shows "map ct_id (List.map_filter m ids) = filter (\<lambda>i. m i \<noteq> None) ids"
  by (induction ids) (auto simp: assms split: option.splits)

text \<open>
  Claim C9. For a state whose tasks have pairwise distinct identifiers and a non-empty,
  duplicate-free list of identifiers of which at least one names a task, the \<open>reorder\<close>
  action returns a permutation of the tasks: first the tasks of the listed identifiers
  that exist, in list order (unknown identifiers are skipped), then every unlisted task in
  its original relative order; every task of the result is a task of the original list,
  unchanged, and the filter is kept.
\<close>

theorem reducer_reorder_permutation:
  assumes "distinct (map ct_id (state_tasks st))"
    and "ids \<noteq> []"
    and "distinct ids"
    and "set ids \<inter> ct_id ` set (state_tasks st) \<noteq> {}"
  shows "mset (state_tasks (reducer timestamp st (Reorder ids))) = mset (state_tasks st)
       \<and> (\<exists>listed. state_tasks (reducer timestamp st (Reorder ids))
                      = listed @ filter (\<lambda>task. ct_id task \<notin> set ids) (state_tasks st)
                  \<and> map ct_id listed = filter (\<lambda>i. i \<in> ct_id ` set (state_tasks st)) ids
                  \<and> set listed \<subseteq> set (state_tasks st))
       \<and> state_filter (reducer timestamp st (Reorder ids)) = state_filter st"
proof -
  let ?ts = "state_tasks st"
  let ?m = "map_of (rev (map (\<lambda>task. (ct_id task, task)) ?ts))"
  let ?listed = "List.map_filter ?m ids"
  let ?used = "{i \<in> set ids. ?m i \<noteq> None}"
  let ?rest = "filter (\<lambda>task. ct_id task \<notin> set ids) ?ts"
  note some = taskMap_Some_iff [OF assms(1)]
  have known: "?m i \<noteq> None \<longleftrightarrow> i \<in> ct_id ` set ?ts" for i
    by (simp only: taskMap_None_iff not_not)
  have set_listed: "set ?listed = {t \<in> set ?ts. ct_id t \<in> set ids}"
    by (auto simp: set_map_filter some)
  from assms(4) obtain t where "t \<in> set ?ts" "ct_id t \<in> set ids"
    by auto
  with set_listed have nonempty: "?listed \<noteq> []"
    by (metis (mono_tags, lifting) empty_iff empty_set mem_Collect_eq)
  have "filter (\<lambda>task. ct_id task \<notin> ?used) ?ts = ?rest"
    by (rule filter_cong [OF refl]) (simp add: taskMap_None_iff)
  then have result: "state_tasks (reducer timestamp st (Reorder ids)) = ?listed @ ?rest"
    and flt: "state_filter (reducer timestamp st (Reorder ids)) = state_filter st"
    using assms(2) nonempty by (simp_all add: reorder_listed_eq)
  have ids_listed: "map ct_id ?listed = filter (\<lambda>i. i \<in> ct_id ` set ?ts) ids"
  proof -
    have "map ct_id ?listed = filter (\<lambda>i. ?m i \<noteq> None) ids"
      by (rule map_ct_id_map_filter) (simp add: some)
    then show ?thesis by (simp only: known)
  qed
  have "distinct ?listed"
    by (rule distinct_map_filter [OF assms(3)]) (auto simp: some)
  moreover have "distinct (filter (\<lambda>t. ct_id t \<in> set ids) ?ts)"
    using assms(1) by (simp add: distinct_map)
  moreover have "set ?listed = set (filter (\<lambda>t. ct_id t \<in> set ids) ?ts)"
    using set_listed by auto
  ultimately have "mset ?listed = mset (filter (\<lambda>t. ct_id t \<in> set ids) ?ts)"
    by (rule distinct_same_set_mset)
  then have "mset (?listed @ ?rest) = mset ?ts"
    by (simp add: mset_filter)
  with result have perm: "mset (state_tasks (reducer timestamp st (Reorder ids))) = mset ?ts"
    by simp
  from set_listed have "set ?listed \<subseteq> set ?ts" by auto
  with result ids_listed perm flt show ?thesis by blast
qed

theorem reducer_reorder_permutation_witness:
  "distinct (map ct_id [client_demo_task ''t-1'' Backlog 1, client_demo_task ''t-2'' Done 2,
                        client_demo_task ''t-3'' In_progress 3])
   \<and> distinct [str ''t-3'', str ''t-9'', str ''t-1'']
   \<and> mset (state_tasks (reducer 5
              \<lparr>state_tasks = [client_demo_task ''t-1'' Backlog 1, client_demo_task ''t-2'' Done 2,
                              client_demo_task ''t-3'' In_progress 3],
                state_filter = Filter_all\<rparr>
              (Reorder [str ''t-3'', str ''t-9'', str ''t-1''])))
       = mset [client_demo_task ''t-1'' Backlog 1, client_demo_task ''t-2'' Done 2,
               client_demo_task ''t-3'' In_progress 3]
   \<and> map ct_id (state_tasks (reducer 5
              \<lparr>state_tasks = [client_demo_task ''t-1'' Backlog 1, client_demo_task ''t-2'' Done 2,
                              client_demo_task ''t-3'' In_progress 3],
                state_filter = Filter_all\<rparr>
              (Reorder [str ''t-3'', str ''t-9'', str ''t-1''])))
       = [str ''t-3'', str ''t-1'', str ''t-2'']"
proof -
  let ?ts = "[client_demo_task ''t-1'' Backlog 1, client_demo_task ''t-2'' Done 2,
              client_demo_task ''t-3'' In_progress 3]"
  let ?st = "\<lparr>state_tasks = ?ts, state_filter = Filter_all\<rparr>"
  let ?ids = "[str ''t-3'', str ''t-9'', str ''t-1'']"
  have h1: "distinct (map ct_id (state_tasks ?st))"
    by (simp add: client_demo_task_def str_def)
  have h2: "?ids \<noteq> []" by simp
  have h3: "distinct ?ids" by (simp add: str_def)
  have h4: "set ?ids \<inter> ct_id ` set (state_tasks ?st) \<noteq> {}"
    by (simp add: client_demo_task_def)
  have ids: "map ct_id ?ts = [str ''t-1'', str ''t-2'', str ''t-3'']"
    by (simp add: client_demo_task_def)
  have f1: "filter (\<lambda>i. i \<in> ct_id ` set ?ts) ?ids = [str ''t-3'', str ''t-1'']"
    by (simp add: client_demo_task_def str_def)
  have f2: "map ct_id (filter (\<lambda>task. ct_id task \<notin> set ?ids) ?ts) = [str ''t-2'']"
    by (simp add: client_demo_task_def str_def)
  from reducer_reorder_permutation [OF h1 h2 h3 h4, of 5]
  obtain listed where perm: "mset (state_tasks (reducer 5 ?st (Reorder ?ids))) = mset ?ts"
    and res: "state_tasks (reducer 5 ?st (Reorder ?ids))
           = listed @ filter (\<lambda>task. ct_id task \<notin> set ?ids) ?ts"
    and l: "map ct_id listed = filter (\<lambda>i. i \<in> ct_id ` set ?ts) ?ids"
    by auto
  have "map ct_id (state_tasks (reducer 5 ?st (Reorder ?ids))) = [str ''t-3'', str ''t-1'', str ''t-2'']"
    unfolding res map_append l f1 f2 by simp
  with perm h1 h3 show ?thesis by simp
qed

section \<open>seedDemoData\<close>

lemma only_inserts_refl [simp]: "only_inserts d d"
  by (simp add: only_inserts_def)

lemma only_inserts_trans:
  assumes "only_inserts d1 d2" and "only_inserts d2 d3"
  shows "only_inserts d1 d3"
proof -
  from assms obtain ts ms es ws ts' ms' es' ws' where
    1: "tasks d2 = tasks d1 @ ts" "messages d2 = messages d1 @ ms"
       "task_events d2 = task_events d1 @ es" "journal d2 = journal d1 @ ws"
       "\<forall>w \<in> set ws. \<not> is_delete w"
    and 2: "tasks d3 = tasks d2 @ ts'" "messages d3 = messages d2 @ ms'"
       "task_events d3 = task_events d2 @ es'" "journal d3 = journal d2 @ ws'"
       "\<forall>w \<in> set ws'. \<not> is_delete w"
    unfolding only_inserts_def by blast
  have "tasks d3 = tasks d1 @ (ts @ ts')" "messages d3 = messages d1 @ (ms @ ms')"
    "task_events d3 = task_events d1 @ (es @ es')" "journal d3 = journal d1 @ (ws @ ws')"
    "\<forall>w \<in> set (ws @ ws'). \<not> is_delete w"
    using 1 2 by auto
  then show ?thesis
    unfolding only_inserts_def by blast
qed

lemma insert_event_only_inserts:
  "only_inserts d (db_insert_event tid ty ac pl cr d)
   \<and> tasks (db_insert_event tid ty ac pl cr d) = tasks d
   \<and> app_state (db_insert_event tid ty ac pl cr d) = app_state d"
  by (simp add: only_inserts_def db_insert_event_def Let_def is_delete_def)

lemma insert_message_only_inserts:
  "only_inserts d (snd (db_insert_message tid tx au cr d))
   \<and> tasks (snd (db_insert_message tid tx au cr d)) = tasks d
   \<and> app_state (snd (db_insert_message tid tx au cr d)) = app_state d"
  by (simp add: only_inserts_def db_insert_message_def Let_def is_delete_def)

lemma side_inserts_refl [simp]: "side_inserts d d"
  by (simp add: side_inserts_def)

lemma side_inserts_trans:
  "side_inserts d1 d2 \<Longrightarrow> side_inserts d2 d3 \<Longrightarrow> side_inserts d1 d3"
  unfolding side_inserts_def using only_inserts_trans by auto

lemma side_inserts_event: "side_inserts d (db_insert_event tid ty ac pl cr d)"
  by (simp add: side_inserts_def insert_event_only_inserts)

lemma side_inserts_message: "side_inserts d (snd (db_insert_message tid tx au cr d))"
  by (simp add: side_inserts_def insert_message_only_inserts)

lemma seed_status_event_side: "side_inserts d (snd (seed_status_event b tid task u d))"
  by (simp add: seed_status_event_def side_inserts_event Let_def split: option.splits)

lemma seed_description_event_side: "side_inserts d (snd (seed_description_event b tid task u d))"
  by (simp add: seed_description_event_def side_inserts_event Let_def split: option.splits)

lemma seed_messages_side: "side_inserts d (snd (seed_messages b tid ms u d))"
proof (induction ms arbitrary: u d)
  case Nil
  show ?case by simp
next
  case (Cons m ms)
  let ?at = "b + minutes (sm_offset m)"
  let ?d1 = "snd (db_insert_message tid (sm_text m) (sm_author m) ?at d)"
  let ?d2 = "db_insert_event tid Message_sent (str ''demo-user'')
               (empty_payload\<lparr>p_textPreview := Some (buildPreview (sm_text m))\<rparr>) ?at ?d1"
  have "side_inserts d ?d2"
    using side_inserts_trans [OF side_inserts_message side_inserts_event] .
  from side_inserts_trans [OF this Cons.IH [of ?d2 "max u ?at"]]
  show ?case by (simp add: Let_def split_def)
qed

lemma length_le_foldr_max: "i \<in> set xs \<Longrightarrow> length i \<le> foldr max (map length xs) 0"
  by (induction xs) auto

lemma fresh_id_fresh: "fresh_id d \<notin> set (all_ids d)"
proof
  assume "fresh_id d \<in> set (all_ids d)"
  from length_le_foldr_max [OF this] show False
    by (simp add: fresh_id_def)
qed

lemma fresh_id_not_task: "t \<in> set (tasks d) \<Longrightarrow> task_id t \<noteq> fresh_id d"
  using fresh_id_fresh [of d] by (auto simp: all_ids_def image_iff)

lemma side_inserts_only: "side_inserts d d' \<Longrightarrow> only_inserts d d'"
  by (simp add: side_inserts_def)

lemma seed_task_only_inserts:
  "\<exists>d'. seed_task b task d = Inr d' \<and> only_inserts d d' \<and> app_state d' = app_state d
        \<and> length (tasks d') = Suc (length (tasks d))"
proof -
  let ?c = "b + minutes (tpl_createdOffset task)"
  let ?i = "fresh_id d"
  let ?nt = "\<lparr>task_id = ?i, title = tpl_title task, status = Canonical (tpl_status task),
              description = (case tpl_description task of Some de \<Rightarrow> de | None \<Rightarrow> []),
              order = tpl_order task, createdAt = ?c, updatedAt = ?c\<rparr>"
  let ?d1 = "d\<lparr>tasks := tasks d @ [?nt], journal := journal d @ [Inserted Tasks ?i]\<rparr>"
  let ?d2 = "db_insert_event ?i Task_created (str ''demo-user'') empty_payload ?c ?d1"
  let ?r3 = "seed_status_event b ?i task ?c ?d2"
  let ?r4 = "seed_description_event b ?i task (fst ?r3) (snd ?r3)"
  let ?r5 = "case tpl_messages task of
               Some ms \<Rightarrow> seed_messages b ?i ms (fst ?r4) (snd ?r4)
             | None \<Rightarrow> (fst ?r4, snd ?r4)"
  let ?d5 = "snd ?r5"
  let ?g = "\<lambda>t::task. t\<lparr>updatedAt := fst ?r5\<rparr>"
  have unfold: "seed_task b task d
      = (if fst ?r5 \<noteq> ?c then db_patch_task ?i ?g ?d5 else Inr ?d5)"
    by (cases "tpl_messages task")
       (simp_all add: seed_task_def Let_def split_def db_insert_task_def)
  have first: "only_inserts d ?d1"
    by (simp add: only_inserts_def is_delete_def)
  have "side_inserts (snd ?r4) ?d5"
    by (cases "tpl_messages task") (simp_all add: seed_messages_side)
  with side_inserts_event [of ?d1 ?i Task_created "str ''demo-user''" empty_payload ?c]
    seed_status_event_side [of ?d2 b ?i task ?c]
    seed_description_event_side [of "snd ?r3" b ?i task "fst ?r3"]
  have side: "side_inserts ?d1 ?d5"
    by (blast intro: side_inserts_trans)
  then have tasks5: "tasks ?d5 = tasks d @ [?nt]" and app5: "app_state ?d5 = app_state d"
    by (simp_all add: side_inserts_def)
  from side have all5: "only_inserts d ?d5"
    by (blast intro: only_inserts_trans first side_inserts_only)
  show ?thesis
  proof (cases "fst ?r5 \<noteq> ?c")
    case False
    with unfold all5 app5 tasks5 show ?thesis by simp
  next
    case True
    let ?dp = "?d5\<lparr>tasks := map (\<lambda>t. if task_id t = ?i then ?g t else t) (tasks ?d5),
                   journal := journal ?d5 @ [Patched Tasks ?i]\<rparr>"
    have "?i \<in> task_id ` set (tasks ?d5)"
      by (simp add: tasks5)
    then have run: "seed_task b task d = Inr ?dp"
      using True unfold by (simp add: db_patch_task_def)
    have old: "map (\<lambda>t. if task_id t = ?i then ?g t else t) (tasks d) = tasks d"
      by (rule map_idI) (simp add: fresh_id_not_task)
    have tasksp: "tasks ?dp = tasks d @ [?g ?nt]"
      by (simp add: tasks5 old)
    from all5 obtain ms es ws where
      "messages ?d5 = messages d @ ms" "task_events ?d5 = task_events d @ es"
      "journal ?d5 = journal d @ ws" "\<forall>w \<in> set ws. \<not> is_delete w"
      unfolding only_inserts_def by blast
    then have "messages ?dp = messages d @ ms" "task_events ?dp = task_events d @ es"
      "journal ?dp = journal d @ (ws @ [Patched Tasks ?i])"
      "\<forall>w \<in> set (ws @ [Patched Tasks ?i]). \<not> is_delete w"
      by (simp_all add: is_delete_def)
    with tasksp have "only_inserts d ?dp"
      unfolding only_inserts_def by blast
    moreover have "app_state ?dp = app_state d"
      using app5 by simp
    moreover have "length (tasks ?dp) = Suc (length (tasks d))"
      by (simp only: tasksp) simp
    ultimately show ?thesis
      using run by blast
  qed
qed

lemma seed_tasks_only_inserts:
  "\<exists>d'. seed_tasks b tpls d = Inr d' \<and> only_inserts d d' \<and> app_state d' = app_state d
        \<and> length (tasks d') = length (tasks d) + length tpls"
proof (induction tpls arbitrary: d)
  case Nil
  show ?case by simp
next
  case (Cons task rest)
  from seed_task_only_inserts [of b task d] obtain d1 where
    1: "seed_task b task d = Inr d1" "only_inserts d d1" "app_state d1 = app_state d"
       "length (tasks d1) = Suc (length (tasks d))"
    by blast
  from Cons.IH [of d1] obtain d' where
    2: "seed_tasks b rest d1 = Inr d'" "only_inserts d1 d'" "app_state d' = app_state d1"
       "length (tasks d') = length (tasks d1) + length rest"
    by blast
  from 1 2 only_inserts_trans [OF 1(2) 2(2)] show ?case
    by simp
qed

lemma length_demoSeedTemplates: "length (demoSeedTemplates language) = 7"
  by (cases language)
     (simp_all add: demoSeedTemplates_en_def demoSeedTemplates_ru_def demoSeedTemplates_es_def)

lemma find_map_keeps_key:
  assumes "\<And>a. as_key (h a) = as_key a"
  shows "find (\<lambda>a. as_key a = k) (map h xs) = map_option h (find (\<lambda>a. as_key a = k) xs)"
  by (induction xs) (simp_all add: assms)

lemma find_append_new:
  assumes "find P xs = None" and "P y"
  shows "find P (xs @ [y]) = Some y"
  using assms by (induction xs) (auto split: if_splits)

lemma seedDemoData_not_seeded:
  assumes "\<not> demo_seeded d"
  shows "\<exists>d'. seedDemoData now language d = Inr (d', str ''created'')
            \<and> only_inserts d d' \<and> length (tasks d') = length (tasks d) + 7
            \<and> demo_seeded d'"
proof -
  let ?b = "now - minutes 85"
  let ?P = "\<lambda>a. as_key a = DEMO_SEED_KEY"
  from seed_tasks_only_inserts [of ?b "demoSeedTemplates language" d] obtain d4 where
    4: "seed_tasks ?b (demoSeedTemplates language) d = Inr d4" "only_inserts d d4"
       "app_state d4 = app_state d" "length (tasks d4) = length (tasks d) + 7"
    by (auto simp: length_demoSeedTemplates)
  show ?thesis
  proof (cases "find ?P (app_state d)")
    case None
    let ?d' = "db_insert_app_state DEMO_SEED_KEY True now now d4"
    have run: "seedDemoData now language d = Inr (?d', str ''created'')"
      using None 4(1) by (simp add: seedDemoData_def)
    have "only_inserts d4 ?d'" and t: "tasks ?d' = tasks d4"
      by (simp_all add: only_inserts_def db_insert_app_state_def Let_def is_delete_def)
    with 4(2) have oi: "only_inserts d ?d'"
      by (blast intro: only_inserts_trans)
    have "find ?P (app_state ?d')
        = Some \<lparr>as_id = fresh_id d4, as_key = DEMO_SEED_KEY, as_value = True,
                as_createdAt = now, as_updatedAt = now\<rparr>"
      using None by (simp add: db_insert_app_state_def Let_def 4(3) find_append_new)
    then have "demo_seeded ?d'"
      by (simp add: demo_seeded_def)
    with run oi t 4(4) show ?thesis by simp
  next
    case (Some doc)
    with assms have val: "\<not> as_value doc"
      by (simp add: demo_seeded_def)
    let ?h = "\<lambda>a. if as_id a = as_id doc then a\<lparr>as_value := True, as_updatedAt := now\<rparr> else a"
    let ?d' = "d4\<lparr>app_state := map ?h (app_state d4),
                  journal := journal d4 @ [Patched App_state (as_id doc)]\<rparr>"
    from Some have "doc \<in> set (app_state d)"
      by (auto simp: find_Some_iff)
    then have "as_id doc \<in> as_id ` set (app_state d4)"
      by (simp add: 4(3))
    then have run: "seedDemoData now language d = Inr (?d', str ''created'')"
      using Some val 4(1) by (simp add: seedDemoData_def db_patch_app_state_def)
    have "only_inserts d4 ?d'" and t: "tasks ?d' = tasks d4"
      by (simp_all add: only_inserts_def is_delete_def)
    with 4(2) have oi: "only_inserts d ?d'"
      by (blast intro: only_inserts_trans)
    have "find ?P (app_state ?d') = map_option ?h (find ?P (app_state d))"
      using find_map_keeps_key [of ?h DEMO_SEED_KEY "app_state d"] by (simp add: 4(3))
    then have "demo_seeded ?d'"
      by (simp add: demo_seeded_def Some)
    with run oi t 4(4) show ?thesis by simp
  qed
qed

text \<open>
  Claim C10. When the \<open>demo_seeded\<close> flag is absent or false at the start of
  \<open>seedDemoData\<close>, the call succeeds, issues no delete, and leaves every task, message and
  event that existed in place, the seven demo tasks with their messages and events
  inserted after them; consequently a call that issued a delete started with the flag true.
\<close>

theorem seedDemoData_deletes_only_when_seeded:
  "(\<not> demo_seeded d \<longrightarrow>
      (\<exists>d'. seedDemoData now language d = Inr (d', str ''created'')
          \<and> (\<exists>ts. tasks d' = tasks d @ ts \<and> length ts = 7)
          \<and> (\<exists>ms. messages d' = messages d @ ms)
          \<and> (\<exists>es. task_events d' = task_events d @ es)
          \<and> (\<exists>ws. journal d' = journal d @ ws \<and> (\<forall>w \<in> set ws. \<not> is_delete w))))
   \<and> (\<forall>d' r. seedDemoData now language d = Inr (d', r)
          \<and> (\<exists>w \<in> set (drop (length (journal d)) (journal d')). is_delete w)
        \<longrightarrow> demo_seeded d)"
proof -
  have keep: "\<exists>d'. seedDemoData now language d = Inr (d', str ''created'')
          \<and> (\<exists>ts. tasks d' = tasks d @ ts \<and> length ts = 7)
          \<and> (\<exists>ms. messages d' = messages d @ ms)
          \<and> (\<exists>es. task_events d' = task_events d @ es)
          \<and> (\<exists>ws. journal d' = journal d @ ws \<and> (\<forall>w \<in> set ws. \<not> is_delete w))"
    if "\<not> demo_seeded d"
  proof -
    from seedDemoData_not_seeded [OF that, of now language] obtain d' where
      run: "seedDemoData now language d = Inr (d', str ''created'')"
      and oi: "only_inserts d d'" and len: "length (tasks d') = length (tasks d) + 7"
      by blast
    from oi obtain ts where ts: "tasks d' = tasks d @ ts"
      unfolding only_inserts_def by blast
    with len have "length ts = 7" by simp
    with run ts oi show ?thesis
      unfolding only_inserts_def by blast
  qed
  have "demo_seeded d"
    if "seedDemoData now language d = Inr (d', r)"
      and "\<exists>w \<in> set (drop (length (journal d)) (journal d')). is_delete w" for d' r
  proof (rule ccontr)
    assume "\<not> demo_seeded d"
    from keep [OF this] that(1) obtain ws where
      "journal d' = journal d @ ws" "\<forall>w \<in> set ws. \<not> is_delete w"
      by auto
    with that(2) show False by simp
  qed
  with keep show ?thesis by blast
qed

lemma seeded_demo_db_run:
  "\<exists>d' ws. seedDemoData now language (seeded_demo_db True) = Inr (d', str ''created'')
       \<and> journal d' = journal (seeded_demo_db True) @ Deleted Tasks (str ''A'') # ws
       \<and> length (tasks d') = 7"
proof -
  let ?d = "seeded_demo_db True"
  let ?doc = "\<lparr>as_id = str ''S'', as_key = DEMO_SEED_KEY, as_value = True,
               as_createdAt = 1, as_updatedAt = 1\<rparr>"
  let ?d3 = "?d\<lparr>tasks := [], journal := [Deleted Tasks (str ''A'')]\<rparr>"
  let ?b = "now - minutes 85"
  have found: "find (\<lambda>a. as_key a = DEMO_SEED_KEY) (app_state ?d) = Some ?doc"
    by (simp add: seeded_demo_db_def)
  have del: "(case delete_each db_delete_task (map task_id (tasks ?d)) ?d of
                Inl e \<Rightarrow> Inl e
              | Inr d1 \<Rightarrow>
                  (case delete_each db_delete_message (map msg_id (messages d1)) d1 of
                     Inl e \<Rightarrow> Inl e
                   | Inr d2 \<Rightarrow> delete_each db_delete_event (map ev_id (task_events d2)) d2))
             = Inr ?d3"
    by (simp add: seeded_demo_db_def demo_db_def demo_task_def db_delete_task_def)
  from seed_tasks_only_inserts [of ?b "demoSeedTemplates language" ?d3] obtain d4 where
    4: "seed_tasks ?b (demoSeedTemplates language) ?d3 = Inr d4" "only_inserts ?d3 d4"
       "app_state d4 = app_state ?d3" "length (tasks d4) = length (tasks ?d3) + 7"
    by (auto simp: length_demoSeedTemplates)
  from 4(2) obtain ws where ws: "journal d4 = journal ?d3 @ ws"
    unfolding only_inserts_def by blast
  let ?h = "\<lambda>a. if as_id a = str ''S'' then a\<lparr>as_value := True, as_updatedAt := now\<rparr> else a"
  let ?d' = "d4\<lparr>app_state := map ?h (app_state d4),
                journal := journal d4 @ [Patched App_state (str ''S'')]\<rparr>"
  have "app_state d4 = [?doc]"
    by (simp add: 4(3) seeded_demo_db_def)
  then have patch: "db_patch_app_state (str ''S'') (\<lambda>a. a\<lparr>as_value := True, as_updatedAt := now\<rparr>) d4
      = Inr ?d'"
    by (simp add: db_patch_app_state_def)
  have run: "seedDemoData now language ?d = Inr (?d', str ''created'')"
    unfolding seedDemoData_def Let_def found
    by (simp only: option.case app_state_doc.select_convs if_True del sum.case 4(1) patch)
  have "journal ?d = []"
    by (simp add: seeded_demo_db_def demo_db_def)
  then have "journal ?d' = journal ?d @ Deleted Tasks (str ''A'') # (ws @ [Patched App_state (str ''S'')])"
    by (simp add: ws)
  moreover have "length (tasks ?d') = 7"
    using 4(4) by simp
  ultimately show ?thesis
    using run by blast
qed

theorem seedDemoData_deletes_only_when_seeded_witness:
  "\<not> demo_seeded (seeded_demo_db False)
   \<and> (\<exists>d'. seedDemoData 6000000 En (seeded_demo_db False) = Inr (d', str ''created'')
          \<and> take 1 (tasks d') = [demo_task ''A'' (Canonical Backlog) 0 5]
          \<and> length (tasks d') = 8
          \<and> filter is_delete (drop (length (journal (seeded_demo_db False))) (journal d')) = [])
   \<and> (\<exists>d'. seedDemoData 6000000 En (seeded_demo_db True) = Inr (d', str ''created'')
          \<and> hd (drop (length (journal (seeded_demo_db True))) (journal d')) = Deleted Tasks (str ''A''))
   \<and> demo_seeded (seeded_demo_db True)"
proof -
  have ns: "\<not> demo_seeded (seeded_demo_db False)"
    by (simp add: demo_seeded_def seeded_demo_db_def)
  have t: "tasks (seeded_demo_db False) = [demo_task ''A'' (Canonical Backlog) 0 5]"
    by (simp add: seeded_demo_db_def demo_db_def)
  from seedDemoData_deletes_only_when_seeded [THEN conjunct1, THEN mp, OF ns, of 6000000 En]
  obtain d' ts ws where a: "seedDemoData 6000000 En (seeded_demo_db False) = Inr (d', str ''created'')"
    "tasks d' = tasks (seeded_demo_db False) @ ts" "length ts = 7"
    "journal d' = journal (seeded_demo_db False) @ ws" "\<forall>w \<in> set ws. \<not> is_delete w"
    by blast
  then have first: "\<exists>d'. seedDemoData 6000000 En (seeded_demo_db False) = Inr (d', str ''created'')
          \<and> take 1 (tasks d') = [demo_task ''A'' (Canonical Backlog) 0 5]
          \<and> length (tasks d') = 8
          \<and> filter is_delete (drop (length (journal (seeded_demo_db False))) (journal d')) = []"
    by (auto simp: t filter_empty_conv)
  from seeded_demo_db_run [of 6000000 En] obtain d'' ws' where
    b: "seedDemoData 6000000 En (seeded_demo_db True) = Inr (d'', str ''created'')"
    "journal d'' = journal (seeded_demo_db True) @ Deleted Tasks (str ''A'') # ws'"
    by blast
  then have hd: "hd (drop (length (journal (seeded_demo_db True))) (journal d'')) = Deleted Tasks (str ''A'')"
    by simp
  have "\<exists>w \<in> set (drop (length (journal (seeded_demo_db True))) (journal d'')). is_delete w"
    using b(2) by (simp add: is_delete_def)
  with seedDemoData_deletes_only_when_seeded [THEN conjunct2, THEN spec, THEN spec, THEN mp,
      of 6000000 En "seeded_demo_db True" d'' "str ''created''"] b(1)
  have seeded: "demo_seeded (seeded_demo_db True)"
    by blast
  from b(1) hd have second: "\<exists>d'. seedDemoData 6000000 En (seeded_demo_db True) = Inr (d', str ''created'')
          \<and> hd (drop (length (journal (seeded_demo_db True))) (journal d')) = Deleted Tasks (str ''A'')"
    by blast
  from ns first second seeded show ?thesis by blast
qed

section \<open>The speech-to-text proxy handler\<close>

lemma poll_loop_status_source:
  assumes "poll_loop b s rounds = Some (Poll_status x, n)"
  shows "x = s \<or> (\<exists>t resp. (t, Returns resp) \<in> set rounds \<and> st_ok resp \<and> st_state resp = Some x)"
  using assms
proof (induction rounds arbitrary: s n)
  case Nil
  then show ?case by simp
next
  case (Cons round rest)
  obtain t r where round: "round = (t, r)" by (cases round)
  show ?case
  proof (cases "t - b < 60000")
    case False
    with Cons.prems show ?thesis by (simp add: round)
  next
    case True
    show ?thesis
    proof (cases r)
      case Throws
      with Cons.prems True show ?thesis by (simp add: round)
    next
      case (Returns resp)
      let ?s' = "case st_state resp of Some s' \<Rightarrow> s' | None \<Rightarrow> s"
      have s': "?s' = s \<or> st_state resp = Some ?s'"
        by (cases "st_state resp") simp_all
      show ?thesis
      proof (cases "st_ok resp")
        case False
        with Cons.prems True Returns show ?thesis by (simp add: round)
      next
        case ok: True
        show ?thesis
        proof (cases "?s' = str ''completed'' \<or> ?s' = str ''failed''")
          case True
          with Cons.prems \<open>t - b < 60000\<close> Returns ok have "x = ?s'"
            by (simp add: round Let_def)
          with s' ok Returns show ?thesis
            by (auto simp: round)
        next
          case False
          with Cons.prems \<open>t - b < 60000\<close> Returns ok obtain m where
            "poll_loop b ?s' rest = Some (Poll_status x, m)"
            by (auto simp: round Let_def)
          from Cons.IH [OF this] s' ok Returns show ?thesis
            by (auto simp: round)
        qed
      qed
    qed
  qed
qed

lemma poll_loop_timeout:
  assumes "poll_loop b s rounds = Some (Poll_status x, n)"
    and "x \<noteq> str ''completed''" and "x \<noteq> str ''failed''"
  shows "\<exists>t r. (t, r) \<in> set rounds \<and> 60000 \<le> t - b"
  using assms(1)
proof (induction rounds arbitrary: s n)
  case Nil
  then show ?case by simp
next
  case (Cons round rest)
  obtain t r where round: "round = (t, r)" by (cases round)
  show ?case
  proof (cases "t - b < 60000")
    case False
    then show ?thesis by (auto simp: round)
  next
    case True
    with Cons.prems assms(2,3) obtain s' m where "poll_loop b s' rest = Some (Poll_status x, m)"
      by (auto simp: round Let_def split: outcome.splits if_splits)
    from Cons.IH [OF this] show ?thesis by auto
  qed
qed

lemma handler_at_polling:
  assumes "reaches_polling req w taskId"
  shows "handler req w =
     (case poll_loop (w_startedAt w) (str ''pending'') (w_rounds w) of
        None \<Rightarrow> None
      | Some (Poll_threw, n) \<Rightarrow>
          respond 500 (Error_body Unexpected) (Upload_call # replicate n Status_call)
      | Some (Poll_not_ok code, n) \<Rightarrow>
          respond code (Error_body Status_error) (Upload_call # replicate n Status_call)
      | Some (Poll_status status', n) \<Rightarrow>
          if status' \<noteq> str ''completed''
          then if status' = str ''failed''
               then respond 502 (Error_task_body Transcription_failed taskId status')
                      (Upload_call # replicate n Status_call)
               else respond 504 (Error_task_body Transcription_timeout taskId (str ''timeout''))
                      (Upload_call # replicate n Status_call)
          else
            (case w_transcription w of
               Throws \<Rightarrow>
                 respond 500 (Error_body Unexpected)
                   (Upload_call # replicate n Status_call @ [Transcription_call])
             | Returns tr \<Rightarrow>
                 if \<not> tr_ok tr
                 then respond (tr_status tr) (Error_body Transcription_error)
                        (Upload_call # replicate n Status_call @ [Transcription_call])
                 else respond 200 (Result_body (transcript_text tr) taskId)
                        (Upload_call # replicate n Status_call @ [Transcription_call])))"
  using assms
  by (auto simp: reaches_polling_def passes_checks_def handler_def Let_def
        split: outcome.splits option.splits)

lemma failed_not_completed: "str ''failed'' \<noteq> str ''completed''"
  by (simp add: str_def)

lemma poll_loop_pending_prefix:
  assumes "list_all (pending_round b) ps"
    and "s \<noteq> str ''completed''" and "s \<noteq> str ''failed''"
  shows "\<exists>s'. s' \<noteq> str ''completed'' \<and> s' \<noteq> str ''failed''
           \<and> poll_loop b s (ps @ rest)
               = map_option (\<lambda>(e, n). (e, n + length ps)) (poll_loop b s' rest)"
  using assms
proof (induction ps arbitrary: s)
  case Nil
  have "poll_loop b s ([] @ rest)
      = map_option (\<lambda>(e, n). (e, n + length ([] :: (int \<times> status_response outcome) list)))
          (poll_loop b s rest)"
    by (cases "poll_loop b s rest") auto
  with Nil.prems show ?case by blast
next
  case (Cons round ps)
  obtain t r where round: "round = (t, r)" by (cases round)
  from Cons.prems(1) have hd: "pending_round b (t, r)" and ps: "list_all (pending_round b) ps"
    by (simp_all add: round)
  from hd obtain resp where r: "r = Returns resp" and ok: "st_ok resp"
    and time: "t - b < 60000"
    and nc: "st_state resp \<noteq> Some (str ''completed'')"
    and nf: "st_state resp \<noteq> Some (str ''failed'')"
    by (auto simp: pending_round_def split: outcome.splits)
  let ?s1 = "case st_state resp of Some x \<Rightarrow> x | None \<Rightarrow> s"
  have s1: "?s1 \<noteq> str ''completed''" "?s1 \<noteq> str ''failed''"
    using nc nf Cons.prems(2,3) by (cases "st_state resp"; simp)+
  from Cons.IH [OF ps s1] obtain s' where
    s': "s' \<noteq> str ''completed''" "s' \<noteq> str ''failed''"
    and eq: "poll_loop b ?s1 (ps @ rest)
              = map_option (\<lambda>(e, n). (e, n + length ps)) (poll_loop b s' rest)"
    by blast
  have "poll_loop b s ((round # ps) @ rest)
      = map_option (\<lambda>(e, n). (e, Suc n)) (poll_loop b ?s1 (ps @ rest))"
    using time ok s1 by (simp add: round r Let_def)
  also have "\<dots> = map_option (\<lambda>(e, n). (e, n + length (round # ps))) (poll_loop b s' rest)"
    unfolding eq by (cases "poll_loop b s' rest") auto
  finally show ?case using s' by blast
qed

lemma pending_not_terminal:
  "str ''pending'' \<noteq> str ''completed''" "str ''pending'' \<noteq> str ''failed''"
  by (simp_all add: str_def)

lemma poll_loop_ends_terminal:
  assumes "list_all (pending_round b) ps" and "t - b < 60000" and "st_ok resp"
    and "st_state resp = Some x" and "x = str ''completed'' \<or> x = str ''failed''"
  shows "poll_loop b (str ''pending'') (ps @ (t, Returns resp) # rest)
           = Some (Poll_status x, Suc (length ps))"
proof -
  from poll_loop_pending_prefix [OF assms(1) pending_not_terminal, of "(t, Returns resp) # rest"]
  obtain s' where "poll_loop b (str ''pending'') (ps @ (t, Returns resp) # rest)
      = map_option (\<lambda>(e, n). (e, n + length ps)) (poll_loop b s' ((t, Returns resp) # rest))"
    by blast
  with assms(2-5) show ?thesis by (auto simp: Let_def)
qed

lemma poll_loop_ends_timeout:
  assumes "list_all (pending_round b) ps" and "60000 \<le> t - b"
  shows "\<exists>s'. s' \<noteq> str ''completed'' \<and> s' \<noteq> str ''failed''
           \<and> poll_loop b (str ''pending'') (ps @ (t, r) # rest) = Some (Poll_status s', length ps)"
proof -
  from poll_loop_pending_prefix [OF assms(1) pending_not_terminal, of "(t, r) # rest"]
  obtain s' where "s' \<noteq> str ''completed''" "s' \<noteq> str ''failed''"
    "poll_loop b (str ''pending'') (ps @ (t, r) # rest)
      = map_option (\<lambda>(e, n). (e, n + length ps)) (poll_loop b s' ((t, r) # rest))"
    by blast
  with assms(2) show ?thesis by auto
qed

lemma poll_loop_ends_throw:
  assumes "list_all (pending_round b) ps" and "t - b < 60000"
  shows "poll_loop b (str ''pending'') (ps @ (t, Throws) # rest) = Some (Poll_threw, Suc (length ps))"
proof -
  from poll_loop_pending_prefix [OF assms(1) pending_not_terminal, of "(t, Throws) # rest"]
  obtain s' where "poll_loop b (str ''pending'') (ps @ (t, Throws) # rest)
      = map_option (\<lambda>(e, n). (e, n + length ps)) (poll_loop b s' ((t, Throws) # rest))"
    by blast
  with assms(2) show ?thesis by auto
qed

text \<open>
  Claim C8. The status of the response, case by case in the order of the handler's checks:
  405 for a method other than POST and 400 for a POST without a token, both before any
  upstream call; and for a request that has got as far as the poll loop, after status
  requests that leave the loop running: 502 when the next answer reports the state
  "failed", 504 when the next loop test finds the hard timeout reached, 200 with the text
  and the task identifier when the next answer reports "completed" and the transcription
  is fetched ok. A throw while reading the body, uploading, polling or fetching the
  transcription gives 500.
\<close>

theorem handler_status_taxonomy:
  "(req_method req \<noteq> Some (str ''POST'') \<longrightarrow>
      handler req w = Some (\<lparr>res_status = 405, res_body = Error_body Method_not_allowed\<rparr>, []))
   \<and> (req_method req = Some (str ''POST'') \<and> \<not> truthy (w_token w) \<longrightarrow>
      handler req w = Some (\<lparr>res_status = 400, res_body = Error_body Missing_token\<rparr>, []))
   \<and> (reaches_polling req w taskId \<and> w_rounds w = ps @ (t, Returns resp) # rest
        \<and> list_all (pending_round (w_startedAt w)) ps \<and> t - w_startedAt w < 60000
        \<and> st_ok resp \<and> st_state resp = Some (str ''failed'') \<longrightarrow>
      handler req w
        = Some (\<lparr>res_status = 502,
                  res_body = Error_task_body Transcription_failed taskId (str ''failed'')\<rparr>,
                Upload_call # replicate (Suc (length ps)) Status_call))
   \<and> (reaches_polling req w taskId \<and> w_rounds w = ps @ (t, r) # rest
        \<and> list_all (pending_round (w_startedAt w)) ps \<and> 60000 \<le> t - w_startedAt w \<longrightarrow>
      handler req w
        = Some (\<lparr>res_status = 504,
                  res_body = Error_task_body Transcription_timeout taskId (str ''timeout'')\<rparr>,
                Upload_call # replicate (length ps) Status_call))
   \<and> (passes_checks req w \<and> w_file w = Throws \<longrightarrow>
      handler req w = Some (\<lparr>res_status = 500, res_body = Error_body Unexpected\<rparr>, []))
   \<and> (passes_checks req w \<and> w_file w = Returns (Some f) \<and> w_upload w = Throws \<longrightarrow>
      handler req w = Some (\<lparr>res_status = 500, res_body = Error_body Unexpected\<rparr>, [Upload_call]))
   \<and> (reaches_polling req w taskId \<and> w_rounds w = ps @ (t, Throws) # rest
        \<and> list_all (pending_round (w_startedAt w)) ps \<and> t - w_startedAt w < 60000 \<longrightarrow>
      handler req w
        = Some (\<lparr>res_status = 500, res_body = Error_body Unexpected\<rparr>,
                Upload_call # replicate (Suc (length ps)) Status_call))
   \<and> (reaches_polling req w taskId \<and> w_rounds w = ps @ (t, Returns resp) # rest
        \<and> list_all (pending_round (w_startedAt w)) ps \<and> t - w_startedAt w < 60000
        \<and> st_ok resp \<and> st_state resp = Some (str ''completed'') \<longrightarrow>
      handler req w
        = (case w_transcription w of
             Throws \<Rightarrow>
               Some (\<lparr>res_status = 500, res_body = Error_body Unexpected\<rparr>,
                     Upload_call # replicate (Suc (length ps)) Status_call @ [Transcription_call])
           | Returns tr \<Rightarrow>
               if tr_ok tr
               then Some (\<lparr>res_status = 200, res_body = Result_body (transcript_text tr) taskId\<rparr>,
                          Upload_call # replicate (Suc (length ps)) Status_call
                            @ [Transcription_call])
               else Some (\<lparr>res_status = tr_status tr, res_body = Error_body Transcription_error\<rparr>,
                          Upload_call # replicate (Suc (length ps)) Status_call
                            @ [Transcription_call])))"
proof -
  have c1: "req_method req \<noteq> Some (str ''POST'') \<longrightarrow>
      handler req w = Some (\<lparr>res_status = 405, res_body = Error_body Method_not_allowed\<rparr>, [])"
    by (simp add: handler_def respond_def)
  have c2: "req_method req = Some (str ''POST'') \<and> \<not> truthy (w_token w) \<longrightarrow>
      handler req w = Some (\<lparr>res_status = 400, res_body = Error_body Missing_token\<rparr>, [])"
    by (simp add: handler_def respond_def)
  have c3: "handler req w
        = Some (\<lparr>res_status = 502,
                  res_body = Error_task_body Transcription_failed taskId (str ''failed'')\<rparr>,
                Upload_call # replicate (Suc (length ps)) Status_call)"
    if "reaches_polling req w taskId" "w_rounds w = ps @ (t, Returns resp) # rest"
      "list_all (pending_round (w_startedAt w)) ps" "t - w_startedAt w < 60000"
      "st_ok resp" "st_state resp = Some (str ''failed'')"
    using poll_loop_ends_terminal [OF that(3,4,5,6), of rest] that(2)
    by (simp add: handler_at_polling [OF that(1)] respond_def failed_not_completed)
  have c4: "handler req w
        = Some (\<lparr>res_status = 504,
                  res_body = Error_task_body Transcription_timeout taskId (str ''timeout'')\<rparr>,
                Upload_call # replicate (length ps) Status_call)"
    if "reaches_polling req w taskId" "w_rounds w = ps @ (t, r) # rest"
      "list_all (pending_round (w_startedAt w)) ps" "60000 \<le> t - w_startedAt w"
    using poll_loop_ends_timeout [OF that(3,4), of r rest] that(2)
    by (auto simp: handler_at_polling [OF that(1)] respond_def)
  have c5: "passes_checks req w \<and> w_file w = Throws \<longrightarrow>
      handler req w = Some (\<lparr>res_status = 500, res_body = Error_body Unexpected\<rparr>, [])"
    by (simp add: handler_def respond_def passes_checks_def Let_def)
  have c6: "passes_checks req w \<and> w_file w = Returns (Some f) \<and> w_upload w = Throws \<longrightarrow>
      handler req w = Some (\<lparr>res_status = 500, res_body = Error_body Unexpected\<rparr>, [Upload_call])"
    by (simp add: handler_def respond_def passes_checks_def Let_def)
  have c7: "handler req w
        = Some (\<lparr>res_status = 500, res_body = Error_body Unexpected\<rparr>,
                Upload_call # replicate (Suc (length ps)) Status_call)"
    if "reaches_polling req w taskId" "w_rounds w = ps @ (t, Throws) # rest"
      "list_all (pending_round (w_startedAt w)) ps" "t - w_startedAt w < 60000"
    using poll_loop_ends_throw [OF that(3,4), of rest] that(2)
    by (simp add: handler_at_polling [OF that(1)] respond_def)
  have c8: "handler req w
        = (case w_transcription w of
             Throws \<Rightarrow>
               Some (\<lparr>res_status = 500, res_body = Error_body Unexpected\<rparr>,
                     Upload_call # replicate (Suc (length ps)) Status_call @ [Transcription_call])
           | Returns tr \<Rightarrow>
               if tr_ok tr
               then Some (\<lparr>res_status = 200, res_body = Result_body (transcript_text tr) taskId\<rparr>,
                          Upload_call # replicate (Suc (length ps)) Status_call
                            @ [Transcription_call])
               else Some (\<lparr>res_status = tr_status tr, res_body = Error_body Transcription_error\<rparr>,
                          Upload_call # replicate (Suc (length ps)) Status_call
                            @ [Transcription_call]))"
    if "reaches_polling req w taskId" "w_rounds w = ps @ (t, Returns resp) # rest"
      "list_all (pending_round (w_startedAt w)) ps" "t - w_startedAt w < 60000"
      "st_ok resp" "st_state resp = Some (str ''completed'')"
    using poll_loop_ends_terminal [OF that(3,4,5,6), of rest] that(2)
    by (simp add: handler_at_polling [OF that(1)] respond_def split: outcome.splits)
  from c1 c2 c3 c4 c5 c6 c7 c8 show ?thesis
    by blast
qed

lemma demo_reaches_polling:
  "reaches_polling (demo_request ''POST'') (demo_world rounds tr) (str ''T1'')"
  by (simp add: reaches_polling_def passes_checks_def demo_request_def demo_world_def truthy_def
        contentType_of_def strip_quotes_def ascii_lower_def str_def)

lemma demo_pending: "pending_round 1000 (1000, demo_state ''processing'')"
  "pending_round 1000 (2500, demo_state ''processing'')"
  by (simp_all add: pending_round_def demo_state_def str_def)

theorem handler_status_taxonomy_witness:
  "handler (demo_request ''GET'') (demo_world [] Throws)
     = Some (\<lparr>res_status = 405, res_body = Error_body Method_not_allowed\<rparr>, [])
   \<and> handler (demo_request ''POST'') ((demo_world [] Throws)\<lparr>w_token := None\<rparr>)
     = Some (\<lparr>res_status = 400, res_body = Error_body Missing_token\<rparr>, [])
   \<and> handler (demo_request ''POST'')
        (demo_world [(1000, demo_state ''processing''), (2500, demo_state ''failed'')] Throws)
     = Some (\<lparr>res_status = 502,
               res_body = Error_task_body Transcription_failed (str ''T1'') (str ''failed'')\<rparr>,
             [Upload_call, Status_call, Status_call])
   \<and> handler (demo_request ''POST'')
        (demo_world [(1000, demo_state ''processing''), (2500, demo_state ''processing''),
                     (61000, demo_state ''completed'')] Throws)
     = Some (\<lparr>res_status = 504,
               res_body = Error_task_body Transcription_timeout (str ''T1'') (str ''timeout'')\<rparr>,
             [Upload_call, Status_call, Status_call])
   \<and> handler (demo_request ''POST'') ((demo_world [] Throws)\<lparr>w_upload := Throws\<rparr>)
     = Some (\<lparr>res_status = 500, res_body = Error_body Unexpected\<rparr>, [Upload_call])
   \<and> handler (demo_request ''POST'')
        (demo_world [(1000, demo_state ''processing''), (2500, demo_state ''completed'')]
           (Returns \<lparr>tr_ok = True, tr_status = 200,
                      tr_segments = [Some (str ''hello ''), None, Some (str '' world'')],
                      tr_fallback = []\<rparr>))
     = Some (\<lparr>res_status = 200,
               res_body = Result_body (str ''hello'' @ [0x0A] @ str ''world'') (str ''T1'')\<rparr>,
             [Upload_call, Status_call, Status_call, Transcription_call])"
proof -
  note c1 = handler_status_taxonomy [THEN conjunct1, THEN mp]
  note c2 = handler_status_taxonomy [THEN conjunct2, THEN conjunct1, THEN mp]
  have w1: "handler (demo_request ''GET'') (demo_world [] Throws)
     = Some (\<lparr>res_status = 405, res_body = Error_body Method_not_allowed\<rparr>, [])"
    by (rule c1) (simp add: demo_request_def str_def)
  have w2: "handler (demo_request ''POST'') ((demo_world [] Throws)\<lparr>w_token := None\<rparr>)
     = Some (\<lparr>res_status = 400, res_body = Error_body Missing_token\<rparr>, [])"
    by (rule c2) (simp add: demo_request_def truthy_def)
  have w3: "handler (demo_request ''POST'')
        (demo_world [(1000, demo_state ''processing''), (2500, demo_state ''failed'')] Throws)
     = Some (\<lparr>res_status = 502,
               res_body = Error_task_body Transcription_failed (str ''T1'') (str ''failed'')\<rparr>,
             [Upload_call, Status_call, Status_call])"
    using handler_status_taxonomy [where req = "demo_request ''POST''"
        and w = "demo_world [(1000, demo_state ''processing''), (2500, demo_state ''failed'')] Throws"
        and taskId = "str ''T1''" and ps = "[(1000, demo_state ''processing'')]" and t = 2500
        and resp = "\<lparr>st_ok = True, st_status = 200, st_state = Some (str ''failed'')\<rparr>"
        and rest = "[]",
        THEN conjunct2, THEN conjunct2, THEN conjunct1, THEN mp]
      demo_reaches_polling demo_pending
    by (simp add: demo_world_def demo_state_def)
  have w4: "handler (demo_request ''POST'')
        (demo_world [(1000, demo_state ''processing''), (2500, demo_state ''processing''),
                     (61000, demo_state ''completed'')] Throws)
     = Some (\<lparr>res_status = 504,
               res_body = Error_task_body Transcription_timeout (str ''T1'') (str ''timeout'')\<rparr>,
             [Upload_call, Status_call, Status_call])"
    using handler_status_taxonomy [where req = "demo_request ''POST''"
        and w = "demo_world [(1000, demo_state ''processing''), (2500, demo_state ''processing''),
                     (61000, demo_state ''completed'')] Throws"
        and taskId = "str ''T1''"
        and ps = "[(1000, demo_state ''processing''), (2500, demo_state ''processing'')]"
        and t = 61000 and r = "demo_state ''completed''" and rest = "[]",
        THEN conjunct2, THEN conjunct2, THEN conjunct2, THEN conjunct1, THEN mp]
      demo_reaches_polling demo_pending
    by (simp add: demo_world_def)
  have pc: "passes_checks (demo_request ''POST'') ((demo_world [] Throws)\<lparr>w_upload := Throws\<rparr>)"
    using demo_reaches_polling [of "[]" Throws]
    by (simp add: reaches_polling_def passes_checks_def demo_world_def)
  have w5: "handler (demo_request ''POST'') ((demo_world [] Throws)\<lparr>w_upload := Throws\<rparr>)
     = Some (\<lparr>res_status = 500, res_body = Error_body Unexpected\<rparr>, [Upload_call])"
    using handler_status_taxonomy [where req = "demo_request ''POST''"
        and w = "(demo_world [] Throws)\<lparr>w_upload := Throws\<rparr>"
        and f = "\<lparr>mf_filename = str ''a.webm'', mf_contentType = str ''audio/webm''\<rparr>",
        THEN conjunct2, THEN conjunct2, THEN conjunct2, THEN conjunct2, THEN conjunct2, THEN conjunct1, THEN mp] pc
    by (simp add: demo_world_def)
  let ?tr = "\<lparr>tr_ok = True, tr_status = 200,
              tr_segments = [Some (str ''hello ''), None, Some (str '' world'')],
              tr_fallback = []\<rparr>"
  have segs: "transcript_text ?tr = str ''hello'' @ [0x0A] @ str ''world''"
    by (simp add: transcript_text_def trim_def isWhiteSpace_def str_def)
  have w6: "handler (demo_request ''POST'')
        (demo_world [(1000, demo_state ''processing''), (2500, demo_state ''completed'')]
           (Returns ?tr))
     = Some (\<lparr>res_status = 200,
               res_body = Result_body (str ''hello'' @ [0x0A] @ str ''world'') (str ''T1'')\<rparr>,
             [Upload_call, Status_call, Status_call, Transcription_call])"
    using handler_status_taxonomy [where req = "demo_request ''POST''"
        and w = "demo_world [(1000, demo_state ''processing''), (2500, demo_state ''completed'')]
                   (Returns ?tr)"
        and taskId = "str ''T1''" and ps = "[(1000, demo_state ''processing'')]" and t = 2500
        and resp = "\<lparr>st_ok = True, st_status = 200, st_state = Some (str ''completed'')\<rparr>"
        and rest = "[]",
        THEN conjunct2, THEN conjunct2, THEN conjunct2, THEN conjunct2, THEN conjunct2, THEN conjunct2, THEN conjunct2, THEN mp]
      demo_reaches_polling demo_pending
    by (simp add: demo_world_def demo_state_def segs)
  from w1 w2 w3 w4 w5 w6 show ?thesis
    by (intro conjI)
qed

end
